theory Spec2Isabelle
  imports Complex_Main
begin

section \<open>Failures and sequence primitives\<close>

text \<open>
  The data source \<^verbatim>\<open>BaseDataSource\<close> of \<^verbatim>\<open>rqalpha/data/base_data_source.py\<close> reads
  daily bars from numpy structured arrays. Every exception the Python can raise is a value
  of \<open>error\<close>; a function that can raise returns \<open>error + 'a\<close>, with \<open>Inl\<close> for the
  exception. A Python \<^verbatim>\<open>None\<close> result is \<open>None\<close> of an option type.

  Numbers: a bar array holds \<^verbatim>\<open>uint64\<close> date stamps and \<^verbatim>\<open>float64\<close> values. Both are
  embedded in \<open>real\<close>: of the date stamps only order and equality are used, and the
  float arithmetic (\<open>*\<close>, \<open>/\<close>) is idealised as exact, without rounding, infinities or
  NaN.
\<close>

datatype error = NotImplementedError | KeyError | IndexError | TypeError | ValueError

definition result_bind :: "error + 'a \<Rightarrow> ('a \<Rightarrow> error + 'b) \<Rightarrow> error + 'b" where
  "result_bind r f = (case r of Inl e \<Rightarrow> Inl e | Inr x \<Rightarrow> f x)"

text \<open>\<^verbatim>\<open>xs[i]\<close> for a Python integer \<open>i\<close>: a negative index counts from the end, an index
  outside \<open>-len .. len-1\<close> raises \<^verbatim>\<open>IndexError\<close>.\<close>

definition py_index :: "'a list \<Rightarrow> int \<Rightarrow> error + 'a" where
  "py_index xs i =
     (if 0 \<le> i \<and> i < int (length xs) then Inr (xs ! nat i)
      else if i < 0 \<and> - int (length xs) \<le> i then Inr (xs ! nat (int (length xs) + i))
      else Inl IndexError)"

text \<open>\<^verbatim>\<open>[f(d) for d in xs]\<close> where \<open>f\<close> may raise: the first failure ends the comprehension.\<close>

fun map_result :: "('a \<Rightarrow> error + 'b) \<Rightarrow> 'a list \<Rightarrow> error + 'b list" where
  "map_result f [] = Inr []"
| "map_result f (x # xs) =
     (case f x of
        Inl e \<Rightarrow> Inl e
      | Inr y \<Rightarrow> (case map_result f xs of Inl e \<Rightarrow> Inl e | Inr ys \<Rightarrow> Inr (y # ys)))"

text \<open>
  \<^verbatim>\<open>a.searchsorted(v, side)\<close> is numpy's binary search: it keeps a window \<open>lo..hi\<close>,
  probes the middle, and moves right past it when the probed element is \<open>< v\<close>
  (\<^verbatim>\<open>side='left'\<close>, the default) or \<open>\<le> v\<close> (\<^verbatim>\<open>side='right'\<close>). It never reads outside
  the array and never fails; on an array that is not sorted it still returns some index.
\<close>

datatype side = Left | Right

fun goes_right :: "side \<Rightarrow> 'a::linorder \<Rightarrow> 'a \<Rightarrow> bool" where
  "goes_right Left x v = (x < v)"
| "goes_right Right x v = (x \<le> v)"

function bisect :: "side \<Rightarrow> 'a::linorder list \<Rightarrow> 'a \<Rightarrow> nat \<Rightarrow> nat \<Rightarrow> nat" where
  "bisect s xs v lo hi =
     (if lo < hi then
        (if goes_right s (xs ! (lo + (hi - lo) div 2)) v
         then bisect s xs v (lo + (hi - lo) div 2 + 1) hi
         else bisect s xs v lo (lo + (hi - lo) div 2))
      else lo)"
  by pat_completeness auto
termination
  by (relation "measure (\<lambda>(s, xs, v, lo, hi). hi - lo)") auto

declare bisect.simps [simp del]

definition searchsorted :: "'a::linorder list \<Rightarrow> 'a \<Rightarrow> side \<Rightarrow> nat" where
  "searchsorted xs v s = bisect s xs v 0 (length xs)"

section \<open>The factor step function\<close>

text \<open>
  \<^verbatim>\<open>
  def _factor_for_date(dates, factors, d):
      if d > dates[-1]:
          return factors[-1]
      pos = dates.searchsorted(d, side='right')
      return factors[pos-1]
  \<close>
\<close>

definition factor_for_date :: "'d::linorder list \<Rightarrow> 'v list \<Rightarrow> 'd \<Rightarrow> error + 'v" where
  "factor_for_date dates factors d =
     result_bind (py_index dates (- 1)) (\<lambda>last_date.
       if d > last_date then py_index factors (- 1)
       else py_index factors (int (searchsorted dates d Right) - 1))"

section \<open>Structured arrays\<close>

text \<open>
  A numpy structured array is kept by columns, in the order of \<^verbatim>\<open>dtype.names\<close>: each
  field name with its column. In a well-formed array the names are distinct and every
  column has the array's length (\<open>wf_bars\<close>).
\<close>

type_synonym bars = "(string \<times> real list) list"

type_synonym bar = "(string \<times> real) list"

definition dtype_names :: "bars \<Rightarrow> string list" where
  "dtype_names b = map fst b"

definition len :: "bars \<Rightarrow> nat" where
  "len b = (case b of [] \<Rightarrow> 0 | c # cs \<Rightarrow> length (snd c))"

definition wf_bars :: "bars \<Rightarrow> bool" where
  "wf_bars b = (distinct (dtype_names b) \<and> list_all (\<lambda>c. length (snd c) = len b) b)"

text \<open>\<^verbatim>\<open>bars['f']\<close>: the column of field \<open>f\<close>; numpy raises \<^verbatim>\<open>ValueError\<close> (no field of
  that name) when the array has no such field.\<close>

definition getitem_field :: "bars \<Rightarrow> string \<Rightarrow> error + real list" where
  "getitem_field b f = (case map_of b f of None \<Rightarrow> Inl ValueError | Some c \<Rightarrow> Inr c)"

text \<open>\<^verbatim>\<open>bars[left:i]\<close> for \<open>0 \<le> left\<close> and \<open>0 \<le> i\<close>: the rows \<open>left, ..., i - 1\<close> that exist
  (none when \<open>i \<le> left\<close>).\<close>

definition getitem_slice :: "bars \<Rightarrow> nat \<Rightarrow> nat \<Rightarrow> bars" where
  "getitem_slice b left i = map (\<lambda>c. (fst c, take (i - left) (drop left (snd c)))) b"

text \<open>\<^verbatim>\<open>bars[mask]\<close> for a boolean array \<open>keep\<close>: the rows whose entry in \<open>keep\<close> is true.\<close>

definition getitem_mask :: "bars \<Rightarrow> bool list \<Rightarrow> bars" where
  "getitem_mask b keep = map (\<lambda>c. (fst c, map snd (filter fst (zip keep (snd c))))) b"

text \<open>\<^verbatim>\<open>bars[pos]\<close> for \<open>0 \<le> pos < len(bars)\<close>: one record.\<close>

definition getitem_row :: "bars \<Rightarrow> nat \<Rightarrow> bar" where
  "getitem_row b pos = map (\<lambda>c. (fst c, snd c ! pos)) b"

text \<open>
  \<^verbatim>\<open>bars[fs]\<close> for a list of names: the sub-array of these fields, in the order of the
  list. numpy rejects a name that is not a field and a name listed twice. An empty list is
  not read as a list of names but as an empty list of row indices: the result has every
  field and no row.
\<close>

definition getitem_fields :: "bars \<Rightarrow> string list \<Rightarrow> error + bars" where
  "getitem_fields b fs =
     (if fs = [] then Inr (map (\<lambda>c. (fst c, [])) b)
      else if distinct fs \<and> list_all (\<lambda>f. f \<in> set (dtype_names b)) fs
      then Inr (List.map_filter (\<lambda>f. map_option (Pair f) (map_of b f)) fs)
      else Inl ValueError)"

text \<open>\<^verbatim>\<open>result[f] = c\<close>: writes column \<open>c\<close> into field \<open>f\<close>.\<close>

fun setitem_field :: "string \<Rightarrow> real list \<Rightarrow> bars \<Rightarrow> bars" where
  "setitem_field f c [] = []"
| "setitem_field f c (x # xs) = (if fst x = f then (f, c) # xs else x # setitem_field f c xs)"

text \<open>
  Elementwise \<^verbatim>\<open>a * b\<close> and \<^verbatim>\<open>a / b\<close> of two one-dimensional arrays. The shapes must agree,
  else numpy raises \<^verbatim>\<open>ValueError\<close>. (Broadcasting of a one-element array does not arise
  here: the factor vector has the array's length, which is at least two where factors are
  applied.) Division by zero does not raise in numpy.
\<close>

definition mul_arrays :: "real list \<Rightarrow> real list \<Rightarrow> error + real list" where
  "mul_arrays a b = (if length a = length b then Inr (map2 (*) a b) else Inl ValueError)"

definition div_arrays :: "real list \<Rightarrow> real list \<Rightarrow> error + real list" where
  "div_arrays a b = (if length a = length b then Inr (map2 (/) a b) else Inl ValueError)"

text \<open>What a window query returns: a structured array, or the column of one field.\<close>

datatype ndarray = Table bars | Column "real list"


section \<open>Field selectors\<close>

text \<open>The \<^verbatim>\<open>fields\<close> argument: \<^verbatim>\<open>None\<close>, one field name (a \<^verbatim>\<open>str\<close>), or a list of names.
  In the definitions below the argument is written \<open>flds\<close>, and an \<^verbatim>\<open>order_book_id\<close>
  argument \<open>obid\<close>: the record declarations take the names \<open>fields\<close> and
  \<open>order_book_id\<close>.\<close>

datatype selector = NoFields | Single string | Many "string list"

text \<open>
  \<^verbatim>\<open>
  def _are_fields_valid(fields, valid_fields):
      if fields is None:
          return True
      if isinstance(fields, six.string_types):
          return fields in valid_fields
      for field in fields:
          if field not in valid_fields:
              return False
      return True
  \<close>
\<close>

fun are_fields_valid :: "selector \<Rightarrow> string list \<Rightarrow> bool" where
  "are_fields_valid NoFields valid_fields = True"
| "are_fields_valid (Single f) valid_fields = (f \<in> set valid_fields)"
| "are_fields_valid (Many fs) valid_fields = list_all (\<lambda>f. f \<in> set valid_fields) fs"

text \<open>The expression \<^verbatim>\<open>bars if fields is None else bars[fields]\<close>.\<close>

fun select_fields :: "bars \<Rightarrow> selector \<Rightarrow> error + ndarray" where
  "select_fields b NoFields = Inr (Table b)"
| "select_fields b (Single f) = result_bind (getitem_field b f) (\<lambda>c. Inr (Column c))"
| "select_fields b (Many fs) = result_bind (getitem_fields b fs) (\<lambda>t. Inr (Table t))"

section \<open>Instruments and the repositories\<close>

record instrument =
  order_book_id :: string
  type :: string

text \<open>\<^verbatim>\<open>SimpleFactorStore.get_factors\<close> returns a structured array with the columns
  \<^verbatim>\<open>start_date\<close> and \<^verbatim>\<open>ex_cum_factor\<close>, or \<^verbatim>\<open>None\<close>.\<close>

record ex_factors =
  start_date :: "real list"
  ex_cum_factor :: "real list"

text \<open>
  The stores are external. \<open>get_bars ds i id\<close> is
  \<^verbatim>\<open>self._day_bars[i].get_bars(id, fields=None)\<close> for the partition \<open>i\<close> (the list
  \<^verbatim>\<open>_day_bars\<close> has the four partitions 0..3), \<open>get_factors ds id\<close> is
  \<^verbatim>\<open>self._ex_cum_factor.get_factors(id)\<close>. The \<^verbatim>\<open>lru_cache\<close> on \<^verbatim>\<open>_all_day_bars_of\<close> and
  \<^verbatim>\<open>_filtered_day_bars\<close> memoises pure reads and is not visible in the results.
\<close>

record data_source =
  get_bars :: "nat \<Rightarrow> string \<Rightarrow> bars option"
  get_factors :: "string \<Rightarrow> ex_factors option"

definition INSTRUMENT_TYPE_MAP :: "(string \<times> nat) list" where
  "INSTRUMENT_TYPE_MAP =
     [(''CS'', 0), (''INDX'', 1), (''Future'', 2), (''ETF'', 3), (''LOF'', 3),
      (''FenjiA'', 3), (''FenjiB'', 3), (''FenjiMu'', 3)]"

text \<open>\<^verbatim>\<open>self.INSTRUMENT_TYPE_MAP[instrument.type]\<close>: a missing key raises \<^verbatim>\<open>KeyError\<close>.\<close>

definition index_of :: "instrument \<Rightarrow> error + nat" where
  "index_of instrument =
     (case map_of INSTRUMENT_TYPE_MAP (type instrument) of
        None \<Rightarrow> Inl KeyError
      | Some i \<Rightarrow> Inr i)"

definition all_day_bars_of :: "data_source \<Rightarrow> instrument \<Rightarrow> error + bars option" where
  "all_day_bars_of ds instrument =
     result_bind (index_of instrument) (\<lambda>i. Inr (get_bars ds i (order_book_id instrument)))"

text \<open>
  \<^verbatim>\<open>
  def _filtered_day_bars(self, instrument):
      bars = self._all_day_bars_of(instrument)
      if bars is None:
          return None
      return bars[bars['volume'] > 0]
  \<close>
\<close>

definition filtered_day_bars :: "data_source \<Rightarrow> instrument \<Rightarrow> error + bars option" where
  "filtered_day_bars ds instrument =
     result_bind (all_day_bars_of ds instrument) (\<lambda>r.
       case r of
         None \<Rightarrow> Inr None
       | Some b \<Rightarrow>
           result_bind (getitem_field b ''volume'') (\<lambda>volume.
             Inr (Some (getitem_mask b (map (\<lambda>v. 0 < v) volume)))))"

section \<open>Point lookup\<close>

text \<open>
  \<^verbatim>\<open>
  def get_bar(self, instrument, dt, frequency):
      if frequency != '1d':
          raise NotImplementedError
      bars = self._all_day_bars_of(instrument)
      if bars is None:
          return
      dt = np.uint64(convert_date_to_int(dt))
      pos = bars['datetime'].searchsorted(dt)
      if pos >= len(bars) or bars['datetime'][pos] != dt:
          return None
      return bars[pos]
  \<close>
  The argument \<open>dt\<close> of the model is the date stamp after the conversion. The \<^verbatim>\<open>or\<close> is
  sequential: the date at \<open>pos\<close> is read only when \<open>pos < len(bars)\<close>.
\<close>

definition get_bar :: "data_source \<Rightarrow> instrument \<Rightarrow> real \<Rightarrow> string \<Rightarrow> error + bar option" where
  "get_bar ds instrument dt frequency =
     (if frequency = ''1d'' then
        result_bind (all_day_bars_of ds instrument) (\<lambda>r.
          case r of
            None \<Rightarrow> Inr None
          | Some b \<Rightarrow>
              result_bind (getitem_field b ''datetime'') (\<lambda>dts.
                if len b \<le> searchsorted dts dt Left then Inr None
                else if dts ! searchsorted dts dt Left = dt
                then Inr (Some (getitem_row b (searchsorted dts dt Left)))
                else Inr None))
      else Inl NotImplementedError)"

section \<open>The adjustment engine\<close>

definition PRICE_FIELDS :: "string set" where
  "PRICE_FIELDS =
     {''open'', ''close'', ''high'', ''low'', ''limit_up'', ''limit_down'',
      ''acc_net_value'', ''unit_net_value''}"

text \<open>
  \<^verbatim>\<open>FIELDS_REQUIRE_ADJUSTMENT = PRICE_FIELDS.copy().add('volume')\<close>

  The method \<^verbatim>\<open>add\<close> of a Python set inserts the element into the receiver and returns
  \<^verbatim>\<open>None\<close>: \<open>set_add\<close> gives the receiver after the call and the value of the call. The
  class attribute is bound to the value of the call.
\<close>

definition set_add :: "'a set \<Rightarrow> 'a \<Rightarrow> 'a set \<times> 'a set option" where
  "set_add s x = (insert x s, None)"

definition FIELDS_REQUIRE_ADJUSTMENT :: "string set option" where
  "FIELDS_REQUIRE_ADJUSTMENT = snd (set_add PRICE_FIELDS ''volume'')"

text \<open>\<^verbatim>\<open>x not in c\<close>: when \<open>c\<close> is \<^verbatim>\<open>None\<close>, Python raises \<^verbatim>\<open>TypeError\<close> (argument of type
  NoneType is not iterable).\<close>

definition py_not_in :: "'a \<Rightarrow> 'a set option \<Rightarrow> error + bool" where
  "py_not_in x c = (case c of None \<Rightarrow> Inl TypeError | Some s \<Rightarrow> Inr (x \<notin> s))"

text \<open>
  The body of the loop over \<^verbatim>\<open>result.dtype.names\<close>:
  \<^verbatim>\<open>
  if f in self.PRICE_FIELDS:
      result[f] *= factors
  elif f == 'volume':
      result[f] /= factors
  \<close>
\<close>

definition rewrite_field :: "real list \<Rightarrow> string \<Rightarrow> bars \<Rightarrow> error + bars" where
  "rewrite_field factors f result =
     (if f \<in> PRICE_FIELDS then
        result_bind (getitem_field result f) (\<lambda>c.
        result_bind (mul_arrays c factors) (\<lambda>c'. Inr (setitem_field f c' result)))
      else if f = ''volume'' then
        result_bind (getitem_field result f) (\<lambda>c.
        result_bind (div_arrays c factors) (\<lambda>c'. Inr (setitem_field f c' result)))
      else Inr result)"

fun rewrite_fields :: "real list \<Rightarrow> string list \<Rightarrow> bars \<Rightarrow> error + bars" where
  "rewrite_fields factors [] result = Inr result"
| "rewrite_fields factors (f # fs) result =
     result_bind (rewrite_field factors f result) (rewrite_fields factors fs)"

text \<open>
  Lines 169 to 183 of \<^verbatim>\<open>_adjust_bar\<close>, once the normalised factor vector is known:
  \<^verbatim>\<open>
  if isinstance(fields, str):
      if fields in self.PRICE_FIELDS:
          return bars[fields] * factors
      elif fields == 'volume':
          return bars[fields] / factors
      # should not got here
      return bars[fields]

  result = np.copy(bars if fields is None else bars[fields])
  for f in result.dtype.names:
      ...
  return result
  \<close>
  Here arrays are values, so the copy is the identity; \<open>adjust_bar_st\<close> below keeps the
  arrays in a store and shows which array each step writes.
\<close>

fun apply_factors :: "real list \<Rightarrow> bars \<Rightarrow> selector \<Rightarrow> error + ndarray" where
  "apply_factors factors b (Single f) =
     (if f \<in> PRICE_FIELDS then
        result_bind (getitem_field b f) (\<lambda>c.
        result_bind (mul_arrays c factors) (\<lambda>r. Inr (Column r)))
      else if f = ''volume'' then
        result_bind (getitem_field b f) (\<lambda>c.
        result_bind (div_arrays c factors) (\<lambda>r. Inr (Column r)))
      else select_fields b (Single f))"
| "apply_factors factors b NoFields =
     result_bind (rewrite_fields factors (dtype_names b) b) (\<lambda>t. Inr (Table t))"
| "apply_factors factors b (Many fs) =
     result_bind (getitem_fields b fs) (\<lambda>result.
     result_bind (rewrite_fields factors (dtype_names result) result) (\<lambda>t. Inr (Table t)))"

text \<open>
  \<^verbatim>\<open>
  def _adjust_bar(self, order_book_id, bars, fields):
      ex_factors = self._ex_cum_factor.get_factors(order_book_id)
      if ex_factors is None:
          return bars if fields is None else bars[fields]
      start_date = bars['datetime'][0]
      end_date = bars['datetime'][-1]
      dates = ex_factors['start_date']
      ex_cum_factors = ex_factors['ex_cum_factor']
      if (self._factor_for_date(dates, ex_cum_factors, start_date) ==
              self._factor_for_date(dates, ex_cum_factors, end_date)):
          return bars if fields is None else bars[fields]
      factors = np.array([self._factor_for_date(dates, ex_cum_factors, d)
                          for d in bars['datetime']], dtype=np.float64)
      factors /= factors[-1]
      ...
  \<close>
\<close>

definition adjust_bar :: "data_source \<Rightarrow> string \<Rightarrow> bars \<Rightarrow> selector \<Rightarrow> error + ndarray" where
  "adjust_bar ds obid b flds =
     (case get_factors ds obid of
        None \<Rightarrow> select_fields b flds
      | Some ex \<Rightarrow>
          result_bind (getitem_field b ''datetime'') (\<lambda>dts.
          result_bind (py_index dts 0) (\<lambda>start_dt.
          result_bind (py_index dts (- 1)) (\<lambda>end_dt.
          result_bind (factor_for_date (start_date ex) (ex_cum_factor ex) start_dt) (\<lambda>f0.
          result_bind (factor_for_date (start_date ex) (ex_cum_factor ex) end_dt) (\<lambda>f1.
            if f0 = f1 then select_fields b flds
            else
              result_bind (map_result (factor_for_date (start_date ex) (ex_cum_factor ex)) dts)
                (\<lambda>factors.
              result_bind (py_index factors (- 1)) (\<lambda>g.
                apply_factors (map (\<lambda>x. x / g) factors) b flds))))))))"

section \<open>Window lookup\<close>

text \<open>
  Lines 189 to 192 of \<^verbatim>\<open>history_bars\<close>:
  \<^verbatim>\<open>
  if skip_suspended and instrument.type == 'CS':
      bars = self._filtered_day_bars(instrument)
  else:
      bars = self._all_day_bars_of(instrument)
  \<close>
\<close>

definition selected_bars :: "data_source \<Rightarrow> instrument \<Rightarrow> bool \<Rightarrow> error + bars option" where
  "selected_bars ds instrument skip_suspended =
     (if skip_suspended \<and> type instrument = ''CS'' then filtered_day_bars ds instrument
      else all_day_bars_of ds instrument)"

text \<open>
  Lines 201 to 208 of \<^verbatim>\<open>history_bars\<close>, on the window \<^verbatim>\<open>bars = bars[left:i]\<close>:
  \<^verbatim>\<open>
  if instrument.type in {'Future', 'INDX'} or len(bars) == 1:
      return bars if fields is None else bars[fields]
  if isinstance(fields, str) and fields not in self.FIELDS_REQUIRE_ADJUSTMENT:
      return bars if fields is None else bars[fields]
  return self._adjust_bar(instrument.order_book_id, bars, fields)
  \<close>
  The \<^verbatim>\<open>and\<close> is sequential: the membership test runs only for a \<^verbatim>\<open>str\<close> selector.
\<close>

definition return_window :: "data_source \<Rightarrow> instrument \<Rightarrow> selector \<Rightarrow> bars \<Rightarrow> error + ndarray" where
  "return_window ds instrument flds w =
     (if type instrument \<in> {''Future'', ''INDX''} \<or> len w = 1 then select_fields w flds
      else
        (case flds of
           Single f \<Rightarrow>
             result_bind (py_not_in f FIELDS_REQUIRE_ADJUSTMENT) (\<lambda>skip.
               if skip then select_fields w flds
               else adjust_bar ds (order_book_id instrument) w flds)
         | NoFields \<Rightarrow> adjust_bar ds (order_book_id instrument) w flds
         | Many fs \<Rightarrow> adjust_bar ds (order_book_id instrument) w flds))"

text \<open>
  \<^verbatim>\<open>
  def history_bars(self, instrument, bar_count, frequency, fields, dt, skip_suspended=True):
      if frequency != '1d':
          raise NotImplementedError
      ...
      if bars is None or not self._are_fields_valid(fields, bars.dtype.names):
          return None
      dt = np.uint64(convert_date_to_int(dt))
      i = bars['datetime'].searchsorted(dt, side='right')
      left = i - bar_count if i >= bar_count else 0
      bars = bars[left:i]
      ...
  \<close>
  \<open>bar_count\<close> is a Python integer; \<open>left\<close> is never negative, since \<open>left = 0\<close> unless
  \<open>bar_count \<le> i\<close>.
\<close>

definition history_bars ::
  "data_source \<Rightarrow> instrument \<Rightarrow> int \<Rightarrow> string \<Rightarrow> selector \<Rightarrow> real \<Rightarrow> bool \<Rightarrow> error + ndarray option"
where
  "history_bars ds instrument bar_count frequency flds dt skip_suspended =
     (if frequency = ''1d'' then
        result_bind (selected_bars ds instrument skip_suspended) (\<lambda>r.
          case r of
            None \<Rightarrow> Inr None
          | Some b \<Rightarrow>
              if are_fields_valid flds (dtype_names b) then
                result_bind (getitem_field b ''datetime'') (\<lambda>dts.
                result_bind
                  (return_window ds instrument flds
                     (getitem_slice b
                        (if bar_count \<le> int (searchsorted dts dt Right)
                         then nat (int (searchsorted dts dt Right) - bar_count) else 0)
                        (searchsorted dts dt Right)))
                  (\<lambda>a. Inr (Some a)))
              else Inr None)
      else Inl NotImplementedError)"

section \<open>The adjustment engine over a store of arrays\<close>

text \<open>
  To see which arrays \<^verbatim>\<open>_adjust_bar\<close> writes, the arrays are kept in a store: a list of
  array objects, an address being a position in it. A new array (\<^verbatim>\<open>np.copy\<close>, the result
  of \<^verbatim>\<open>a * b\<close>) is put at the end of the store. What a call returns is a reference: an
  object of the store, or a view \<^verbatim>\<open>bars[fields]\<close> that shares the data of an object.
  \<^verbatim>\<open>result[f] *= factors\<close> writes into the object \<open>result\<close>.
\<close>

type_synonym store = "ndarray list"

datatype reference = Obj nat | View nat selector

definition alloc :: "store \<Rightarrow> ndarray \<Rightarrow> store \<times> nat" where
  "alloc s a = (s @ [a], length s)"

fun deref :: "store \<Rightarrow> reference \<Rightarrow> error + ndarray" where
  "deref s (Obj p) = Inr (s ! p)"
| "deref s (View p flds) =
     (case s ! p of Table b \<Rightarrow> select_fields b flds | Column c \<Rightarrow> Inl IndexError)"

text \<open>The reference that \<^verbatim>\<open>bars if fields is None else bars[fields]\<close> evaluates to, for the
  object \<open>bars\<close> at address \<open>p\<close> with the contents \<open>b\<close>.\<close>

definition select_ref :: "nat \<Rightarrow> bars \<Rightarrow> selector \<Rightarrow> error + reference" where
  "select_ref p b flds =
     result_bind (select_fields b flds) (\<lambda>a.
       Inr (case flds of NoFields \<Rightarrow> Obj p | Single f \<Rightarrow> View p flds | Many fs \<Rightarrow> View p flds))"

definition inplace_rewrite :: "real list \<Rightarrow> nat \<Rightarrow> string \<Rightarrow> store \<Rightarrow> error + store" where
  "inplace_rewrite factors r f s =
     (case s ! r of
        Table t \<Rightarrow> result_bind (rewrite_field factors f t) (\<lambda>t'. Inr (s[r := Table t']))
      | Column c \<Rightarrow> Inl IndexError)"

fun inplace_rewrites :: "real list \<Rightarrow> nat \<Rightarrow> string list \<Rightarrow> store \<Rightarrow> error + store" where
  "inplace_rewrites factors r [] s = Inr s"
| "inplace_rewrites factors r (f # fs) s =
     result_bind (inplace_rewrite factors r f s) (inplace_rewrites factors r fs)"

fun apply_factors_st ::
  "real list \<Rightarrow> store \<Rightarrow> nat \<Rightarrow> bars \<Rightarrow> selector \<Rightarrow> error + store \<times> reference"
where
  "apply_factors_st factors s p b (Single f) =
     (if f \<in> PRICE_FIELDS then
        result_bind (getitem_field b f) (\<lambda>c.
        result_bind (mul_arrays c factors) (\<lambda>r.
          Inr (fst (alloc s (Column r)), Obj (snd (alloc s (Column r))))))
      else if f = ''volume'' then
        result_bind (getitem_field b f) (\<lambda>c.
        result_bind (div_arrays c factors) (\<lambda>r.
          Inr (fst (alloc s (Column r)), Obj (snd (alloc s (Column r))))))
      else result_bind (select_ref p b (Single f)) (\<lambda>v. Inr (s, v)))"
| "apply_factors_st factors s p b NoFields =
     result_bind
       (inplace_rewrites factors (snd (alloc s (Table b))) (dtype_names b)
          (fst (alloc s (Table b))))
       (\<lambda>s'. Inr (s', Obj (snd (alloc s (Table b)))))"
| "apply_factors_st factors s p b (Many fs) =
     result_bind (getitem_fields b fs) (\<lambda>result.
     result_bind
       (inplace_rewrites factors (snd (alloc s (Table result))) (dtype_names result)
          (fst (alloc s (Table result))))
       (\<lambda>s'. Inr (s', Obj (snd (alloc s (Table result))))))"

text \<open>\<^verbatim>\<open>_adjust_bar\<close> called with the array object at address \<open>p\<close> of the store \<open>s\<close> as
  \<^verbatim>\<open>bars\<close>: the store after the call and the reference returned.\<close>

definition adjust_bar_st ::
  "data_source \<Rightarrow> string \<Rightarrow> store \<Rightarrow> nat \<Rightarrow> selector \<Rightarrow> error + store \<times> reference"
where
  "adjust_bar_st ds obid s p flds =
     (case s ! p of
        Column c \<Rightarrow> Inl IndexError
      | Table b \<Rightarrow>
         (case get_factors ds obid of
            None \<Rightarrow> result_bind (select_ref p b flds) (\<lambda>v. Inr (s, v))
          | Some ex \<Rightarrow>
              result_bind (getitem_field b ''datetime'') (\<lambda>dts.
              result_bind (py_index dts 0) (\<lambda>start_dt.
              result_bind (py_index dts (- 1)) (\<lambda>end_dt.
              result_bind (factor_for_date (start_date ex) (ex_cum_factor ex) start_dt) (\<lambda>f0.
              result_bind (factor_for_date (start_date ex) (ex_cum_factor ex) end_dt) (\<lambda>f1.
                if f0 = f1 then result_bind (select_ref p b flds) (\<lambda>v. Inr (s, v))
                else
                  result_bind
                    (map_result (factor_for_date (start_date ex) (ex_cum_factor ex)) dts)
                    (\<lambda>factors.
                  result_bind (py_index factors (- 1)) (\<lambda>g.
                    apply_factors_st (map (\<lambda>x. x / g) factors) s p b flds)))))))))"

section \<open>The adjustment rule of the specification\<close>

text \<open>
  The specification (section 4.5) states the rewrite per field: every price-class field is
  multiplied by the normalised factor of its row, \<^verbatim>\<open>volume\<close> is divided by it, every
  other field is left untouched. \<open>spec_adjust_column nf n c\<close> is that rule for the column
  \<open>c\<close> of the field named \<open>n\<close> and the vector \<open>nf\<close> of normalised factors; it is written
  from the specification, to be compared with what \<open>adjust_bar\<close> computes.
\<close>

definition spec_adjust_column :: "real list \<Rightarrow> string \<Rightarrow> real list \<Rightarrow> real list" where
  "spec_adjust_column nf n c =
     (if n \<in> PRICE_FIELDS then map2 (*) c nf
      else if n = ''volume'' then map2 (/) c nf
      else c)"

text \<open>The number of rows of a series, given by its date column, that are dated at or before
  the reference date: the \<open>k\<close> of the window rule of the specification (section 4.4).\<close>

definition rows_up_to :: "real list \<Rightarrow> real \<Rightarrow> nat" where
  "rows_up_to dts dt = length (filter (\<lambda>x. x \<le> dt) dts)"

section \<open>Sample data\<close>

text \<open>
  A stock with four daily bars around a two-for-one split on 2020-01-06, used to run the
  functions on concrete inputs. Dates are the integers YYYYMMDD.
\<close>

definition stock :: instrument where
  "stock = \<lparr>order_book_id = ''000001.XSHE'', type = ''CS''\<rparr>"

definition stock_bars :: bars where
  "stock_bars =
     [(''datetime'', [20200102, 20200103, 20200106, 20200107]),
      (''close'', [10, 10, 5, 5]),
      (''volume'', [100, 100, 200, 200]),
      (''total_turnover'', [1000, 1000, 1000, 1000])]"

text \<open>The bar repository holds the stock in partition 0; without a factor table, with the
  table of the split, and with a table whose factor rises and returns inside the window.\<close>

definition plain_source :: data_source where
  "plain_source =
     \<lparr>get_bars = (\<lambda>i obid. if i = 0 \<and> obid = ''000001.XSHE'' then Some stock_bars else None),
      get_factors = (\<lambda>obid. None)\<rparr>"

definition split_source :: data_source where
  "split_source =
     \<lparr>get_bars = (\<lambda>i obid. if i = 0 \<and> obid = ''000001.XSHE'' then Some stock_bars else None),
      get_factors = (\<lambda>obid. if obid = ''000001.XSHE''
         then Some \<lparr>start_date = [0, 20200106], ex_cum_factor = [1, 2]\<rparr> else None)\<rparr>"

definition bump_source :: data_source where
  "bump_source =
     \<lparr>get_bars = (\<lambda>i obid. if i = 0 \<and> obid = ''000001.XSHE'' then Some stock_bars else None),
      get_factors = (\<lambda>obid. if obid = ''000001.XSHE''
         then Some \<lparr>start_date = [0, 20200103, 20200107], ex_cum_factor = [1, 2, 1]\<rparr>
         else None)\<rparr>"

section \<open>Properties of the sequence primitives\<close>

lemma result_bind_Inl [simp]: "result_bind (Inl e) f = Inl e"
  by (simp add: result_bind_def)

lemma result_bind_Inr [simp]: "result_bind (Inr x) f = f x"
  by (simp add: result_bind_def)

lemma result_bind_eq_Inr: "result_bind r f = Inr y \<longleftrightarrow> (\<exists>x. r = Inr x \<and> f x = Inr y)"
  by (cases r) simp_all

lemma py_index_first: "py_index xs 0 = (if xs = [] then Inl IndexError else Inr (hd xs))"
  by (cases xs) (simp_all add: py_index_def)

lemma py_index_last: "py_index xs (- 1) = (if xs = [] then Inl IndexError else Inr (last xs))"
  by (cases xs rule: rev_cases) (simp_all add: py_index_def nth_append)

lemma py_index_nat: "i < length xs \<Longrightarrow> py_index xs (int i) = Inr (xs ! i)"
  by (simp add: py_index_def)

lemma bisect_stop: "\<not> lo < hi \<Longrightarrow> bisect s xs v lo hi = lo"
  by (subst bisect.simps) simp

lemma bisect_go_right:
  "lo < hi \<Longrightarrow> goes_right s (xs ! (lo + (hi - lo) div 2)) v \<Longrightarrow>
   bisect s xs v lo hi = bisect s xs v (lo + (hi - lo) div 2 + 1) hi"
  by (subst bisect.simps) simp

lemma bisect_go_left:
  "lo < hi \<Longrightarrow> \<not> goes_right s (xs ! (lo + (hi - lo) div 2)) v \<Longrightarrow>
   bisect s xs v lo hi = bisect s xs v lo (lo + (hi - lo) div 2)"
  by (subst bisect.simps) simp

lemma goes_right_mono:
  "sorted xs \<Longrightarrow> i \<le> j \<Longrightarrow> j < length xs \<Longrightarrow> goes_right s (xs ! j) v \<Longrightarrow> goes_right s (xs ! i) v"
  by (cases s) (auto dest: sorted_nth_mono [of xs i j])

lemma bisect_partition:
  assumes "sorted xs" and "hi \<le> length xs" and "lo \<le> hi"
    and "\<forall>i<lo. goes_right s (xs ! i) v"
    and "\<forall>i. hi \<le> i \<and> i < length xs \<longrightarrow> \<not> goes_right s (xs ! i) v"
  shows "bisect s xs v lo hi \<le> length xs \<and>
         (\<forall>i<bisect s xs v lo hi. goes_right s (xs ! i) v) \<and>
         (\<forall>i. bisect s xs v lo hi \<le> i \<and> i < length xs \<longrightarrow> \<not> goes_right s (xs ! i) v)"
  using assms
proof (induction s xs v lo hi rule: bisect.induct)
  case (1 s xs v lo hi)
  show ?case
  proof (cases "lo < hi")
    case False
    then have "bisect s xs v lo hi = lo" by (rule bisect_stop)
    moreover have "lo = hi" using False "1.prems"(3) by simp
    ultimately show ?thesis using "1.prems" by simp
  next
    case lt: True
    define mid where "mid = lo + (hi - lo) div 2"
    have mid: "lo \<le> mid" "mid < hi" using lt by (simp_all add: mid_def)
    have midlen: "mid < length xs" using mid "1.prems"(2) by simp
    show ?thesis
    proof (cases "goes_right s (xs ! mid) v")
      case True
      have below: "\<forall>i<mid + 1. goes_right s (xs ! i) v"
      proof (intro allI impI)
        fix i assume "i < mid + 1"
        then have "i \<le> mid" by simp
        then show "goes_right s (xs ! i) v"
          by (rule goes_right_mono [OF "1.prems"(1) _ midlen True])
      qed
      have le: "mid + 1 \<le> hi" using mid by simp
      have eq: "bisect s xs v lo hi = bisect s xs v (mid + 1) hi"
        unfolding mid_def by (rule bisect_go_right [OF lt True [unfolded mid_def]])
      have "bisect s xs v (mid + 1) hi \<le> length xs \<and>
         (\<forall>i<bisect s xs v (mid + 1) hi. goes_right s (xs ! i) v) \<and>
         (\<forall>i. bisect s xs v (mid + 1) hi \<le> i \<and> i < length xs \<longrightarrow> \<not> goes_right s (xs ! i) v)"
        unfolding mid_def
        by (rule "1.IH"(1) [OF lt True [unfolded mid_def] "1.prems"(1,2) le [unfolded mid_def]
              below [unfolded mid_def] "1.prems"(5)])
      then show ?thesis unfolding eq .
    next
      case False
      have above: "\<forall>i. mid \<le> i \<and> i < length xs \<longrightarrow> \<not> goes_right s (xs ! i) v"
      proof (intro allI impI notI)
        fix i assume a: "mid \<le> i \<and> i < length xs" and g: "goes_right s (xs ! i) v"
        have "goes_right s (xs ! mid) v"
          by (rule goes_right_mono [OF "1.prems"(1) _ _ g]) (use a in simp_all)
        with False show False by simp
      qed
      have le: "mid \<le> length xs" using midlen by simp
      have eq: "bisect s xs v lo hi = bisect s xs v lo mid"
        unfolding mid_def by (rule bisect_go_left [OF lt False [unfolded mid_def]])
      have "bisect s xs v lo mid \<le> length xs \<and>
         (\<forall>i<bisect s xs v lo mid. goes_right s (xs ! i) v) \<and>
         (\<forall>i. bisect s xs v lo mid \<le> i \<and> i < length xs \<longrightarrow> \<not> goes_right s (xs ! i) v)"
        unfolding mid_def
        by (rule "1.IH"(2) [OF lt False [unfolded mid_def] "1.prems"(1) le [unfolded mid_def]
              mid(1) [unfolded mid_def] "1.prems"(4) above [unfolded mid_def]])
      then show ?thesis unfolding eq .
    qed
  qed
qed

lemma filter_eq_take:
  assumes "r \<le> length xs" and "\<forall>i<r. P (xs ! i)"
    and "\<forall>i. r \<le> i \<and> i < length xs \<longrightarrow> \<not> P (xs ! i)"
  shows "filter P xs = take r xs"
proof -
  have a: "filter P (take r xs) = take r xs"
    using assms(1,2) by (auto simp: filter_id_conv in_set_conv_nth)
  have b: "filter P (drop r xs) = []"
    using assms(3) by (auto simp: filter_empty_conv in_set_conv_nth)
  have "filter P xs = filter P (take r xs @ drop r xs)" by simp
  also have "\<dots> = take r xs" unfolding filter_append a b by simp
  finally show ?thesis .
qed

text \<open>On a sorted array the binary search returns the insertion point: the number of
  elements \<open>< v\<close> (left) or \<open>\<le> v\<close> (right), all of them before it.\<close>

lemma searchsorted_partition:
  assumes "sorted xs"
  shows "searchsorted xs v s \<le> length xs \<and>
        (\<forall>i<searchsorted xs v s. goes_right s (xs ! i) v) \<and>
        (\<forall>i. searchsorted xs v s \<le> i \<and> i < length xs \<longrightarrow> \<not> goes_right s (xs ! i) v)"
  unfolding searchsorted_def
proof (rule bisect_partition)
  show "sorted xs" by fact
  show "length xs \<le> length xs" by (rule order_refl)
  show "0 \<le> length xs" by (rule le0)
  show "\<forall>i<0. goes_right s (xs ! i) v" by (intro allI impI) (erule less_zeroE)
  show "\<forall>i. length xs \<le> i \<and> i < length xs \<longrightarrow> \<not> goes_right s (xs ! i) v"
  proof (intro allI impI)
    fix i assume "length xs \<le> i \<and> i < length xs"
    then have False by linarith
    then show "\<not> goes_right s (xs ! i) v" ..
  qed
qed

lemma searchsorted_le_length: "sorted xs \<Longrightarrow> searchsorted xs v s \<le> length xs"
  by (rule searchsorted_partition [THEN conjunct1])

lemma searchsorted_take:
  assumes "sorted xs"
  shows "take (searchsorted xs v s) xs = filter (\<lambda>x. goes_right s x v) xs"
proof -
  note p = searchsorted_partition [OF assms, of v s]
  show ?thesis
    by (rule filter_eq_take [symmetric, OF p [THEN conjunct1] p [THEN conjunct2, THEN conjunct1]
          p [THEN conjunct2, THEN conjunct2]])
qed

lemma searchsorted_count:
  assumes "sorted xs"
  shows "searchsorted xs v s = length (filter (\<lambda>x. goes_right s x v) xs)"
proof -
  have "length (take (searchsorted xs v s) xs) = searchsorted xs v s"
    using searchsorted_le_length [OF assms, of v s] by simp
  then show ?thesis unfolding searchsorted_take [OF assms] by simp
qed

lemma searchsorted_right:
  "sorted xs \<Longrightarrow> searchsorted xs v Right = length (filter (\<lambda>x. x \<le> v) xs)"
  by (simp add: searchsorted_count)

lemma searchsorted_left:
  "sorted xs \<Longrightarrow> searchsorted xs v Left = length (filter (\<lambda>x. x < v) xs)"
  by (simp add: searchsorted_count)

section \<open>The instrument-type router\<close>

text \<open>
  C9. An instrument whose \<^verbatim>\<open>type\<close> is outside the eight categories of
  \<^verbatim>\<open>INSTRUMENT_TYPE_MAP\<close> makes \<^verbatim>\<open>_index_of\<close> fail with the lookup failure \<^verbatim>\<open>KeyError\<close>, and
  reading its bars fails the same way (no default partition is used). Inside the set the
  partition is fixed: CS is 0, INDX is 1, Future is 2, and the five fund-like categories
  are 3.
\<close>

theorem index_of_closed_category_set:
  "(type i \<notin> {''CS'', ''INDX'', ''Future'', ''ETF'', ''LOF'', ''FenjiA'', ''FenjiB'', ''FenjiMu''}
      \<longrightarrow> index_of i = Inl KeyError \<and> all_day_bars_of ds i = Inl KeyError) \<and>
   (type i = ''CS'' \<longrightarrow> index_of i = Inr 0) \<and>
   (type i = ''INDX'' \<longrightarrow> index_of i = Inr 1) \<and>
   (type i = ''Future'' \<longrightarrow> index_of i = Inr 2) \<and>
   (type i \<in> {''ETF'', ''LOF'', ''FenjiA'', ''FenjiB'', ''FenjiMu''} \<longrightarrow> index_of i = Inr 3)"
  by (auto simp: index_of_def INSTRUMENT_TYPE_MAP_def all_day_bars_of_def)

theorem index_of_closed_category_set_witness:
  "index_of \<lparr>order_book_id = ''019547.XSHG'', type = ''Bond''\<rparr> = Inl KeyError \<and>
   index_of \<lparr>order_book_id = ''000001.XSHE'', type = ''CS''\<rparr> = Inr 0 \<and>
   index_of \<lparr>order_book_id = ''000300.XSHG'', type = ''INDX''\<rparr> = Inr 1 \<and>
   index_of \<lparr>order_book_id = ''IF1706'', type = ''Future''\<rparr> = Inr 2 \<and>
   index_of \<lparr>order_book_id = ''150008.XSHE'', type = ''FenjiA''\<rparr> = Inr 3"
  using index_of_closed_category_set [of "\<lparr>order_book_id = ''019547.XSHG'', type = ''Bond''\<rparr>"]
    index_of_closed_category_set [of "\<lparr>order_book_id = ''000001.XSHE'', type = ''CS''\<rparr>"]
    index_of_closed_category_set [of "\<lparr>order_book_id = ''000300.XSHG'', type = ''INDX''\<rparr>"]
    index_of_closed_category_set [of "\<lparr>order_book_id = ''IF1706'', type = ''Future''\<rparr>"]
    index_of_closed_category_set [of "\<lparr>order_book_id = ''150008.XSHE'', type = ''FenjiA''\<rparr>"]
  by simp

section \<open>Properties of the factor step function\<close>

text \<open>
  On ascending breakpoints with one factor each, \<^verbatim>\<open>_factor_for_date\<close> reads the factor at
  the Python index \<open>k - 1\<close>, where \<open>k\<close> is the number of breakpoints \<open>\<le> d\<close>. For \<open>k > 0\<close>
  that is the factor of the last breakpoint \<open>\<le> d\<close>. For \<open>k = 0\<close>, a date before every
  breakpoint, the index is \<open>-1\<close>, which Python reads from the end: the last factor.
\<close>

lemma py_index_length_pred:
  "xs \<noteq> [] \<Longrightarrow> py_index xs (int (length xs) - 1) = Inr (last xs)"
  by (cases xs rule: rev_cases) (simp_all add: py_index_def nth_append)

lemma factor_for_date_count:
  assumes "sorted dates" and "dates \<noteq> []" and "length factors = length dates"
  shows "factor_for_date dates factors d =
         py_index factors (int (length (filter (\<lambda>x. x \<le> d) dates)) - 1)"
proof (cases "last dates < d")
  case True
  have "\<forall>x\<in>set dates. x \<le> d"
  proof
    fix x assume "x \<in> set dates"
    then obtain i where i: "i < length dates" "dates ! i = x" by (auto simp: in_set_conv_nth)
    have "dates ! i \<le> dates ! (length dates - 1)"
      by (rule sorted_nth_mono [OF assms(1)]) (use i in simp_all)
    then have "x \<le> last dates" using i assms(2) by (simp add: last_conv_nth)
    with True show "x \<le> d" by simp
  qed
  then have all: "filter (\<lambda>x. x \<le> d) dates = dates" by (simp add: filter_id_conv)
  have "factors \<noteq> []" using assms(2,3) by auto
  then have "py_index factors (int (length dates) - 1) = py_index factors (- 1)"
    using py_index_length_pred [of factors] by (simp add: assms(3) py_index_last)
  with True assms(2) show ?thesis
    by (simp add: factor_for_date_def py_index_last all)
next
  case False
  with assms(1,2) show ?thesis
    by (simp add: factor_for_date_def py_index_last searchsorted_right)
qed

lemma factor_for_date_governing:
  assumes "sorted dates" and "length factors = length dates"
    and "j < length dates" and "dates ! j \<le> d"
    and "\<forall>i. j < i \<and> i < length dates \<longrightarrow> d < dates ! i"
  shows "factor_for_date dates factors d = Inr (factors ! j)"
proof -
  have ne: "dates \<noteq> []" using assms(3) by auto
  have below: "\<forall>i<Suc j. dates ! i \<le> d"
  proof (intro allI impI)
    fix i assume "i < Suc j"
    then have "dates ! i \<le> dates ! j"
      using sorted_nth_mono [OF assms(1), of i j] assms(3) by simp
    with assms(4) show "dates ! i \<le> d" by simp
  qed
  have above: "\<forall>i. Suc j \<le> i \<and> i < length dates \<longrightarrow> \<not> dates ! i \<le> d"
    using assms(5) by (auto simp: not_le Suc_le_eq)
  have "filter (\<lambda>x. x \<le> d) dates = take (Suc j) dates"
    by (rule filter_eq_take [OF _ below above]) (use assms(3) in simp)
  then have "length (filter (\<lambda>x. x \<le> d) dates) = Suc j"
    using assms(3) by simp
  then show ?thesis
    using assms(2,3) by (simp add: factor_for_date_count [OF assms(1) ne assms(2)] py_index_def)
qed

lemma factor_for_date_from_last:
  assumes "sorted dates" and "dates \<noteq> []" and "length factors = length dates"
    and "last dates \<le> d"
  shows "factor_for_date dates factors d = Inr (last factors)"
proof -
  have pos: "0 < length dates" using assms(2) by simp
  have none: "\<forall>i. length dates - 1 < i \<and> i < length dates \<longrightarrow> d < dates ! i"
  proof (intro allI impI)
    fix i assume "length dates - 1 < i \<and> i < length dates"
    then have False by linarith
    then show "d < dates ! i" ..
  qed
  have "factor_for_date dates factors d = Inr (factors ! (length dates - 1))"
  proof (rule factor_for_date_governing [OF assms(1,3) _ _ none])
    show "length dates - 1 < length dates" using pos by simp
    show "dates ! (length dates - 1) \<le> d" using assms(2,4) by (simp add: last_conv_nth)
  qed
  moreover have "factors \<noteq> []" using assms(2,3) by auto
  ultimately show ?thesis using assms(3) by (simp add: last_conv_nth)
qed

lemma factor_for_date_before_first:
  assumes "sorted dates" and "dates \<noteq> []" and "length factors = length dates"
    and "d < hd dates"
  shows "factor_for_date dates factors d = Inr (last factors)"
proof -
  have "\<forall>x\<in>set dates. \<not> x \<le> d"
  proof
    fix x assume "x \<in> set dates"
    then obtain i where i: "i < length dates" "dates ! i = x" by (auto simp: in_set_conv_nth)
    have "dates ! 0 \<le> dates ! i"
      by (rule sorted_nth_mono [OF assms(1)]) (use i in simp_all)
    then have "hd dates \<le> x" using i assms(2) by (simp add: hd_conv_nth)
    with assms(4) show "\<not> x \<le> d" by simp
  qed
  then have "filter (\<lambda>x. x \<le> d) dates = []" by (simp add: filter_empty_conv)
  moreover have "factors \<noteq> []" using assms(2,3) by auto
  ultimately show ?thesis
    by (simp add: factor_for_date_count [OF assms(1,2,3)] py_index_last)
qed

text \<open>
  C3. The claim has three parts. Two hold (\<open>factor_for_date_governing\<close>,
  \<open>factor_for_date_from_last\<close>): the lookup returns the factor of the last breakpoint
  \<open>\<le> d\<close>, so the last factor from the last breakpoint on. The third does not: for a date
  strictly before the first breakpoint the claim promises the earliest factor, and the
  code returns the last one (\<open>factor_for_date_before_first\<close>), since \<^verbatim>\<open>factors[pos-1]\<close>
  is \<^verbatim>\<open>factors[-1]\<close> at \<open>pos = 0\<close>. With breakpoints 2020-01-05 (factor 2) and 2020-01-10
  (factor 1), the date 2020-01-02 gets the factor 1, not 2.
\<close>

theorem factor_for_date_before_first_returns_last_factor:
  "factor_for_date [20200105, 20200110] [2, 1] (20200102 :: real) = Inr (last [2, 1 :: real]) \<and>
   factor_for_date [20200105, 20200110] [2, 1] (20200102 :: real) \<noteq> Inr (hd [2, 1 :: real])"
  by code_simp

section \<open>Window lookup: the paths that return the window unadjusted\<close>

lemma adjust_bar_no_factors:
  "get_factors ds obid = None \<Longrightarrow> adjust_bar ds obid b flds = select_fields b flds"
  by (simp add: adjust_bar_def)

lemma adjust_bar_equal_endpoints:
  assumes "get_factors ds obid = Some ex" and "getitem_field b ''datetime'' = Inr dts"
    and "dts \<noteq> []"
    and "factor_for_date (start_date ex) (ex_cum_factor ex) (hd dts) = Inr g"
    and "factor_for_date (start_date ex) (ex_cum_factor ex) (last dts) = Inr g"
  shows "adjust_bar ds obid b flds = select_fields b flds"
  by (simp add: adjust_bar_def assms py_index_first py_index_last)

lemma return_window_exempt:
  "type inst \<in> {''Future'', ''INDX''} \<or> len w = 1 \<Longrightarrow>
   return_window ds inst flds w = select_fields w flds"
  by (simp add: return_window_def)

lemma return_window_single_raises:
  "type inst \<notin> {''Future'', ''INDX''} \<Longrightarrow> len w \<noteq> 1 \<Longrightarrow>
   return_window ds inst (Single f) w = Inl TypeError"
  by (simp add: return_window_def py_not_in_def FIELDS_REQUIRE_ADJUSTMENT_def set_add_def)

lemma return_window_not_single:
  "type inst \<notin> {''Future'', ''INDX''} \<Longrightarrow> len w \<noteq> 1 \<Longrightarrow> flds = NoFields \<or> flds = Many fs \<Longrightarrow>
   return_window ds inst flds w = adjust_bar ds (order_book_id inst) w flds"
  by (auto simp: return_window_def)

lemma history_bars_other_frequency:
  "frequency \<noteq> ''1d'' \<Longrightarrow> history_bars ds inst n frequency flds dt skip = Inl NotImplementedError"
  by (simp add: history_bars_def)

lemma history_bars_no_series:
  "selected_bars ds inst skip = Inr None \<Longrightarrow> history_bars ds inst n ''1d'' flds dt skip = Inr None"
  by (simp add: history_bars_def)

lemma history_bars_invalid_fields:
  "selected_bars ds inst skip = Inr (Some b) \<Longrightarrow> \<not> are_fields_valid flds (dtype_names b) \<Longrightarrow>
   history_bars ds inst n ''1d'' flds dt skip = Inr None"
  by (simp add: history_bars_def)

text \<open>
  C1. For a single field name that needs no adjustment the claim promises the raw column.
  The code tests \<^verbatim>\<open>fields not in self.FIELDS_REQUIRE_ADJUSTMENT\<close>, and that attribute is
  \<^verbatim>\<open>None\<close> (the value of \<^verbatim>\<open>set.add\<close>), so the test raises \<^verbatim>\<open>TypeError\<close> for every
  \<^verbatim>\<open>str\<close> selector that reaches it (\<open>return_window_single_raises\<close>). Here: the stock's
  last three bars, field \<^verbatim>\<open>total_turnover\<close>.
\<close>

theorem history_bars_passthrough_field_raises:
  "history_bars plain_source stock 3 ''1d'' (Single ''total_turnover'') 20200107 True
     = Inl TypeError \<and>
   FIELDS_REQUIRE_ADJUSTMENT = None \<and>
   ''total_turnover'' \<notin> insert ''volume'' PRICE_FIELDS"
  by code_simp

text \<open>
  C2. A missing series and an invalid selector give \<^verbatim>\<open>None\<close>
  (\<open>history_bars_no_series\<close>, \<open>history_bars_invalid_fields\<close>), and a missing factor table
  gives the raw window (\<open>adjust_bar_no_factors\<close>). But an empty window is not returned
  empty when the instrument has a factor table: the guard before \<^verbatim>\<open>_adjust_bar\<close> covers
  only \<^verbatim>\<open>len(bars) == 1\<close>, and \<^verbatim>\<open>bars['datetime'][0]\<close> raises \<^verbatim>\<open>IndexError\<close> on the empty
  window. Here: the reference date 2020-01-01 lies before every bar of the stock.
\<close>

theorem history_bars_empty_window_raises:
  "history_bars split_source stock 3 ''1d'' NoFields 20200101 True = Inl IndexError"
  by code_simp

text \<open>
  C5. Without a factor table, or with equal factors at both ends of the window,
  \<^verbatim>\<open>_adjust_bar\<close> returns the window as it is, projected to the selector
  (\<open>adjust_bar_no_factors\<close>, \<open>adjust_bar_equal_endpoints\<close>). But \<^verbatim>\<open>history_bars\<close> does not
  reach it for a single field name: the stock has no factor table here, the claim promises
  the raw column of \<^verbatim>\<open>close\<close>, and the call raises \<^verbatim>\<open>TypeError\<close>.
\<close>

theorem history_bars_no_factors_single_field_raises:
  "get_factors plain_source (order_book_id stock) = None \<and>
   history_bars plain_source stock 3 ''1d'' (Single ''close'') 20200107 True = Inl TypeError \<and>
   select_fields (getitem_slice stock_bars 1 4) (Single ''close'') = Inr (Column [10, 5, 5])"
  by code_simp

text \<open>
  C10. The fast path of \<^verbatim>\<open>_adjust_bar\<close> compares the factors of the first and the last
  date only (\<open>adjust_bar_equal_endpoints\<close>): in the sample below the factor is 1 at both
  ends and 2 on 2020-01-03 and 2020-01-06, and the window comes back raw when no field is
  selected. For a single field name the same call raises \<^verbatim>\<open>TypeError\<close> instead of
  returning the raw column.
\<close>

theorem history_bars_equal_endpoints_single_field_raises:
  "factor_for_date [0, 20200103, 20200107] [1, 2, 1] (20200102 :: real) = Inr (1 :: real) \<and>
   factor_for_date [0, 20200103, 20200107] [1, 2, 1] (20200103 :: real) = Inr (2 :: real) \<and>
   factor_for_date [0, 20200103, 20200107] [1, 2, 1] (20200107 :: real) = Inr (1 :: real) \<and>
   history_bars bump_source stock 4 ''1d'' NoFields 20200107 True = Inr (Some (Table stock_bars)) \<and>
   history_bars bump_source stock 4 ''1d'' (Single ''close'') 20200107 True = Inl TypeError"
  by code_simp

section \<open>Point lookup: the row of an exact date\<close>

lemma getitem_field_Inr: "getitem_field b f = Inr c \<longleftrightarrow> map_of b f = Some c"
  by (simp add: getitem_field_def split: option.splits)

lemma wf_bars_column_length:
  assumes "wf_bars b" and "getitem_field b f = Inr c"
  shows "length c = len b"
proof -
  have "(f, c) \<in> set b" using assms(2) by (simp add: getitem_field_Inr map_of_SomeD)
  moreover have "\<forall>x\<in>set b. length (snd x) = len b"
    using assms(1) by (simp add: wf_bars_def list_all_iff)
  ultimately show ?thesis by fastforce
qed

lemma searchsorted_left_absent:
  assumes "sorted xs" and "d \<notin> set xs" and "searchsorted xs d Left < length xs"
  shows "xs ! searchsorted xs d Left \<noteq> d"
  using assms(2,3) by (metis nth_mem)

lemma searchsorted_left_present:
  assumes "sorted xs" and "pos < length xs" and "xs ! pos = d"
  shows "searchsorted xs d Left < length xs \<and> xs ! searchsorted xs d Left = d"
proof -
  note p = searchsorted_partition [OF assms(1), of d Left]
  let ?r = "searchsorted xs d Left"
  have "\<not> pos < ?r"
  proof
    assume "pos < ?r"
    then have "goes_right Left (xs ! pos) d" using p by blast
    then show False using assms(3) by simp
  qed
  then have le: "?r \<le> pos" by simp
  then have lt: "?r < length xs" using assms(2) by simp
  have "\<not> goes_right Left (xs ! ?r) d" using p lt by blast
  then have "d \<le> xs ! ?r" by simp
  moreover have "xs ! ?r \<le> xs ! pos" by (rule sorted_nth_mono [OF assms(1) le assms(2)])
  ultimately have "xs ! ?r = d" using assms(3) by simp
  with lt show ?thesis by simp
qed

lemma get_bar_found:
  assumes "index_of inst = Inr i" and "get_bars ds i (order_book_id inst) = Some b"
    and "wf_bars b" and "getitem_field b ''datetime'' = Inr dts"
    and "sorted dts" and "distinct dts" and "pos < length dts" and "dts ! pos = d"
  shows "get_bar ds inst d ''1d'' = Inr (Some (getitem_row b pos))"
proof -
  let ?r = "searchsorted dts d Left"
  have r: "?r < length dts" "dts ! ?r = d"
    using searchsorted_left_present [OF assms(5,7,8)] by simp_all
  have "dts ! ?r = dts ! pos" using r(2) assms(8) by simp
  then have "?r = pos"
    using nth_eq_iff_index_eq [OF assms(6) r(1) assms(7)] by simp
  moreover have "len b = length dts"
    using wf_bars_column_length [OF assms(3,4)] by simp
  ultimately show ?thesis
    using assms(1,2,4,7,8) by (simp add: get_bar_def all_day_bars_of_def)
qed

lemma get_bar_absent_date:
  assumes "index_of inst = Inr i" and "get_bars ds i (order_book_id inst) = Some b"
    and "wf_bars b" and "getitem_field b ''datetime'' = Inr dts"
    and "sorted dts" and "d \<notin> set dts"
  shows "get_bar ds inst d ''1d'' = Inr None"
proof -
  have "len b = length dts"
    using wf_bars_column_length [OF assms(3,4)] by simp
  moreover have "searchsorted dts d Left < length dts \<longrightarrow> dts ! searchsorted dts d Left \<noteq> d"
    using searchsorted_left_absent [OF assms(5,6)] by simp
  ultimately show ?thesis
    using assms(1,2,4) by (auto simp: get_bar_def all_day_bars_of_def)
qed

lemma get_bar_no_series:
  "index_of inst = Inr i \<Longrightarrow> get_bars ds i (order_book_id inst) = None \<Longrightarrow>
   get_bar ds inst d ''1d'' = Inr None"
  by (simp add: get_bar_def all_day_bars_of_def)

lemma get_bar_ignores_factors:
  "get_bar (ds\<lparr>get_factors := g\<rparr>) inst d frequency = get_bar ds inst d frequency"
  by (simp add: get_bar_def all_day_bars_of_def)

text \<open>
  C7. For an instrument of a known category and the daily frequency: \<^verbatim>\<open>get_bar\<close> returns
  \<^verbatim>\<open>None\<close> when the repository has no series for the instrument, and also when the
  series has no row dated \<open>d\<close>; when a row is dated \<open>d\<close> it returns exactly that row of the
  raw series. The series is well formed and its dates are strictly ascending (sorted and
  distinct), as the data model says. No adjustment is applied: the result is the raw row,
  and it does not depend on the factor repository at all.
\<close>

theorem get_bar_exact_date:
  assumes "index_of inst = Inr i"
  shows "(get_bars ds i (order_book_id inst) = None \<longrightarrow> get_bar ds inst d ''1d'' = Inr None) \<and>
         (\<forall>b dts. get_bars ds i (order_book_id inst) = Some b \<and> wf_bars b \<and>
              getitem_field b ''datetime'' = Inr dts \<and> sorted dts \<and> distinct dts \<longrightarrow>
              (d \<notin> set dts \<longrightarrow> get_bar ds inst d ''1d'' = Inr None) \<and>
              (\<forall>pos<length dts. dts ! pos = d \<longrightarrow>
                 get_bar ds inst d ''1d'' = Inr (Some (getitem_row b pos)))) \<and>
         get_bar (ds\<lparr>get_factors := g\<rparr>) inst d ''1d'' = get_bar ds inst d ''1d''"
  using get_bar_no_series [OF assms] get_bar_absent_date [OF assms] get_bar_found [OF assms]
    get_bar_ignores_factors
  by blast

theorem get_bar_exact_date_witness:
  "index_of stock = Inr 0 \<and>
   get_bar split_source stock 20200106 ''1d''
     = Inr (Some [(''datetime'', 20200106), (''close'', 5), (''volume'', 200),
                  (''total_turnover'', 1000)]) \<and>
   get_bar split_source stock 20200105 ''1d'' = Inr None \<and>
   get_bar split_source (stock\<lparr>order_book_id := ''600000.XSHG''\<rparr>) 20200106 ''1d'' = Inr None"
proof -
  have i: "index_of stock = Inr 0" by code_simp
  have i': "index_of (stock\<lparr>order_book_id := ''600000.XSHG''\<rparr>) = Inr 0" by code_simp
  have b: "get_bars split_source 0 (order_book_id stock) = Some stock_bars" by code_simp
  have n: "get_bars split_source 0 (order_book_id (stock\<lparr>order_book_id := ''600000.XSHG''\<rparr>)) = None"
    by code_simp
  have w: "wf_bars stock_bars" by code_simp
  have c: "getitem_field stock_bars ''datetime'' = Inr [20200102, 20200103, 20200106, 20200107]"
    by code_simp
  have s: "sorted [20200102, 20200103, 20200106, 20200107 :: real]" by simp
  have d: "distinct [20200102, 20200103, 20200106, 20200107 :: real]" by simp
  have r: "getitem_row stock_bars 2 = [(''datetime'', 20200106), (''close'', 5), (''volume'', 200),
                  (''total_turnover'', 1000)]" by code_simp
  have "get_bar split_source stock 20200106 ''1d'' = Inr (Some (getitem_row stock_bars 2))"
    using get_bar_exact_date [OF i, of split_source 20200106] b w c s d by simp
  moreover have "get_bar split_source stock 20200105 ''1d'' = Inr None"
    using get_bar_exact_date [OF i, of split_source 20200105] b w c s d by simp
  moreover have "get_bar split_source (stock\<lparr>order_book_id := ''600000.XSHG''\<rparr>) 20200106 ''1d'' = Inr None"
    using get_bar_exact_date [OF i', of split_source 20200106] n by simp
  ultimately show ?thesis using i r by simp
qed

section \<open>The adjustment engine: factors and field rewrite\<close>

lemma map_result_Inr:
  "map_result f xs = Inr ys \<Longrightarrow> length ys = length xs \<and> (\<forall>i<length xs. f (xs ! i) = Inr (ys ! i))"
proof (induction xs arbitrary: ys)
  case Nil
  then show ?case by simp
next
  case (Cons x xs)
  from Cons.prems obtain y ys' where y: "f x = Inr y" and ys': "map_result f xs = Inr ys'"
    and ys: "ys = y # ys'"
    by (auto split: sum.splits)
  from Cons.IH [OF ys'] have ih: "length ys' = length xs" "\<forall>i<length xs. f (xs ! i) = Inr (ys' ! i)"
    by simp_all
  show ?case
  proof (intro conjI allI impI)
    show "length ys = length (x # xs)" using ih(1) ys by simp
    fix i assume "i < length (x # xs)"
    then show "f ((x # xs) ! i) = Inr (ys ! i)"
      using y ih(2) ys by (cases i) simp_all
  qed
qed

lemma names_setitem_field: "map fst (setitem_field f c t) = map fst t"
  by (induction t) simp_all

lemma setitem_field_distinct:
  "distinct (map fst t) \<Longrightarrow>
   setitem_field f c t = map (\<lambda>x. if fst x = f then (f, c) else x) t"
proof (induction t)
  case Nil
  then show ?case by simp
next
  case (Cons x xs)
  show ?case
  proof (cases "fst x = f")
    case True
    have "\<forall>y\<in>set xs. fst y \<noteq> f"
    proof
      fix y assume "y \<in> set xs"
      then have "fst y \<in> set (map fst xs)" by simp
      moreover have "fst x \<notin> set (map fst xs)" using Cons.prems by simp
      ultimately show "fst y \<noteq> f" using True by metis
    qed
    then have "map (\<lambda>x. if fst x = f then (f, c) else x) xs = xs"
      by (simp add: map_idI)
    with True show ?thesis by simp
  next
    case False
    with Cons show ?thesis by simp
  qed
qed

lemma distinct_names_column:
  assumes "distinct (map fst t)" and "map_of t f = Some c" and "x \<in> set t" and "fst x = f"
  shows "snd x = c"
proof -
  have "(f, c) \<in> set t" using assms(2) by (rule map_of_SomeD)
  moreover have "(f, snd x) = x" using assms(4) by (simp add: prod_eq_iff)
  then have "(f, snd x) \<in> set t" using assms(3) by simp
  ultimately show ?thesis using eq_key_imp_eq_value [OF assms(1)] by metis
qed

lemma mul_arrays_Inr: "mul_arrays a b = Inr c \<longleftrightarrow> length a = length b \<and> c = map2 (*) a b"
  by (auto simp: mul_arrays_def)

lemma div_arrays_Inr: "div_arrays a b = Inr c \<longleftrightarrow> length a = length b \<and> c = map2 (/) a b"
  by (auto simp: div_arrays_def)

lemma rewrite_field_eq:
  assumes "distinct (map fst t)" and "rewrite_field nf f t = Inr t1"
  shows "t1 = map (\<lambda>x. if fst x = f then (fst x, spec_adjust_column nf (fst x) (snd x)) else x) t"
proof (cases "f \<in> PRICE_FIELDS \<or> f = ''volume''")
  case False
  then have "t1 = t" using assms(2) by (simp add: rewrite_field_def)
  moreover have "map (\<lambda>x. if fst x = f then (fst x, spec_adjust_column nf (fst x) (snd x)) else x) t = t"
    using False by (intro map_idI) (simp add: spec_adjust_column_def prod_eq_iff)
  ultimately show ?thesis by simp
next
  case True
  then obtain c where c: "map_of t f = Some c"
    and t1: "t1 = setitem_field f (spec_adjust_column nf f c) t"
    using assms(2)
    by (auto simp: rewrite_field_def spec_adjust_column_def result_bind_eq_Inr getitem_field_Inr
        mul_arrays_Inr div_arrays_Inr split: if_splits)
  have "t1 = map (\<lambda>x. if fst x = f then (f, spec_adjust_column nf f c) else x) t"
    unfolding t1 by (rule setitem_field_distinct [OF assms(1)])
  also have "\<dots> = map (\<lambda>x. if fst x = f then (fst x, spec_adjust_column nf (fst x) (snd x)) else x) t"
    by (rule map_cong [OF refl]) (use distinct_names_column [OF assms(1) c] in auto)
  finally show ?thesis .
qed

lemma rewrite_field_names: "rewrite_field nf f t = Inr t1 \<Longrightarrow> map fst t1 = map fst t"
  by (auto simp: rewrite_field_def result_bind_eq_Inr names_setitem_field split: if_splits)

lemma rewrite_fields_eq:
  "distinct ns \<Longrightarrow> distinct (map fst t) \<Longrightarrow> rewrite_fields nf ns t = Inr t' \<Longrightarrow>
   t' = map (\<lambda>x. if fst x \<in> set ns then (fst x, spec_adjust_column nf (fst x) (snd x)) else x) t"
proof (induction ns arbitrary: t)
  case Nil
  then show ?case by simp
next
  case (Cons f ns)
  from Cons.prems(3) obtain t1 where t1: "rewrite_field nf f t = Inr t1"
    and t': "rewrite_fields nf ns t1 = Inr t'"
    by (auto simp: result_bind_eq_Inr)
  have d1: "distinct (map fst t1)" using rewrite_field_names [OF t1] Cons.prems(2) by simp
  have fns: "f \<notin> set ns" "distinct ns" using Cons.prems(1) by simp_all
  have "t' = map (\<lambda>x. if fst x \<in> set ns then (fst x, spec_adjust_column nf (fst x) (snd x)) else x) t1"
    by (rule Cons.IH [OF fns(2) d1 t'])
  also have "t1 = map (\<lambda>x. if fst x = f then (fst x, spec_adjust_column nf (fst x) (snd x)) else x) t"
    by (rule rewrite_field_eq [OF Cons.prems(2) t1])
  finally show ?case using fns(1) by (auto intro!: map_cong)
qed

lemma rewrite_all_fields:
  assumes "distinct (dtype_names t)" and "rewrite_fields nf (dtype_names t) t = Inr t'"
  shows "t' = map (\<lambda>x. (fst x, spec_adjust_column nf (fst x) (snd x))) t"
proof -
  have "t' = map (\<lambda>x. if fst x \<in> set (dtype_names t)
      then (fst x, spec_adjust_column nf (fst x) (snd x)) else x) t"
    using assms by (intro rewrite_fields_eq) (simp_all add: dtype_names_def)
  also have "\<dots> = map (\<lambda>x. (fst x, spec_adjust_column nf (fst x) (snd x))) t"
    by (rule map_cong [OF refl]) (simp add: dtype_names_def)
  finally show ?thesis .
qed

lemma names_map_filter:
  "map fst (List.map_filter (\<lambda>f. map_option (Pair f) (map_of b f)) fs)
     = filter (\<lambda>f. map_of b f \<noteq> None) fs"
  by (induction fs) (auto simp: List.map_filter_simps split: option.splits)

lemma getitem_fields_distinct:
  assumes "distinct (dtype_names b)" and "getitem_fields b fs = Inr t"
  shows "distinct (dtype_names t)"
proof (cases "fs = []")
  case True
  then have "t = map (\<lambda>c. (fst c, [])) b" using assms(2) by (simp add: getitem_fields_def)
  then show ?thesis using assms(1) by (simp add: dtype_names_def comp_def)
next
  case False
  then have "distinct fs" and "t = List.map_filter (\<lambda>f. map_option (Pair f) (map_of b f)) fs"
    using assms(2) by (auto simp: getitem_fields_def split: if_splits)
  then show ?thesis by (simp add: dtype_names_def names_map_filter)
qed

lemma apply_factors_spec:
  assumes "distinct (dtype_names b)" and "apply_factors nf b flds = Inr a"
  shows "(\<forall>f. flds = Single f \<longrightarrow>
            (\<exists>c. getitem_field b f = Inr c \<and> a = Column (spec_adjust_column nf f c))) \<and>
         (flds = NoFields \<longrightarrow>
            a = Table (map (\<lambda>x. (fst x, spec_adjust_column nf (fst x) (snd x))) b)) \<and>
         (\<forall>fs. flds = Many fs \<longrightarrow>
            (\<exists>t. getitem_fields b fs = Inr t \<and>
                 a = Table (map (\<lambda>x. (fst x, spec_adjust_column nf (fst x) (snd x))) t)))"
proof (cases flds)
  case NoFields
  then obtain t' where t': "rewrite_fields nf (dtype_names b) b = Inr t'" and a: "a = Table t'"
    using assms(2) by (auto simp: result_bind_eq_Inr)
  show ?thesis using NoFields a rewrite_all_fields [OF assms(1) t'] by simp
next
  case (Single f)
  then have "\<exists>c. getitem_field b f = Inr c \<and> a = Column (spec_adjust_column nf f c)"
    using assms(2)
    by (auto simp: result_bind_eq_Inr spec_adjust_column_def mul_arrays_Inr div_arrays_Inr
        split: if_splits)
  with Single show ?thesis by simp
next
  case (Many fs)
  then obtain t t' where t: "getitem_fields b fs = Inr t"
    and t': "rewrite_fields nf (dtype_names t) t = Inr t'" and a: "a = Table t'"
    using assms(2) by (auto simp: result_bind_eq_Inr)
  have "distinct (dtype_names t)" by (rule getitem_fields_distinct [OF assms(1) t])
  from rewrite_all_fields [OF this t'] show ?thesis using Many a t by simp
qed

lemma adjust_bar_slow_path:
  assumes "get_factors ds obid = Some ex"
    and "getitem_field b ''datetime'' = Inr dts"
    and "factor_for_date (start_date ex) (ex_cum_factor ex) (hd dts)
           \<noteq> factor_for_date (start_date ex) (ex_cum_factor ex) (last dts)"
    and "adjust_bar ds obid b flds = Inr a"
  shows "\<exists>fs g. map_result (factor_for_date (start_date ex) (ex_cum_factor ex)) dts = Inr fs \<and>
           dts \<noteq> [] \<and> fs \<noteq> [] \<and> g = last fs \<and>
           apply_factors (map (\<lambda>x. x / g) fs) b flds = Inr a"
proof -
  have ne: "dts \<noteq> []"
    using assms(1,2,4) by (auto simp: adjust_bar_def py_index_first)
  from assms(1,2,4) ne obtain f0 f1 where
    f0: "factor_for_date (start_date ex) (ex_cum_factor ex) (hd dts) = Inr f0" and
    f1: "factor_for_date (start_date ex) (ex_cum_factor ex) (last dts) = Inr f1" and
    rest: "(if f0 = f1 then select_fields b flds
            else result_bind (map_result (factor_for_date (start_date ex) (ex_cum_factor ex)) dts)
              (\<lambda>factors. result_bind (py_index factors (- 1))
                 (\<lambda>g. apply_factors (map (\<lambda>x. x / g) factors) b flds))) = Inr a"
    by (auto simp: adjust_bar_def py_index_first py_index_last result_bind_eq_Inr)
  have "f0 \<noteq> f1" using assms(3) f0 f1 by simp
  with rest obtain fs g where
    fs: "map_result (factor_for_date (start_date ex) (ex_cum_factor ex)) dts = Inr fs" and
    g: "py_index fs (- 1) = Inr g" and
    a: "apply_factors (map (\<lambda>x. x / g) fs) b flds = Inr a"
    by (auto simp: result_bind_eq_Inr)
  have "fs \<noteq> []" using g by (auto simp: py_index_last)
  moreover have "g = last fs" using g by (auto simp: py_index_last split: if_splits)
  ultimately show ?thesis using fs a ne by blast
qed

text \<open>
  C4. Whenever \<^verbatim>\<open>_adjust_bar\<close> adjusts a window (the instrument has a factor table, the
  factors at the window's first and last date differ, and a result \<open>a\<close> is returned):
  there is a factor \<open>fs ! i\<close> for each row, the step-function factor of the row's date;
  the normalised factor of a row is \<open>fs ! i / g\<close>, where \<open>g\<close> is the factor at the last
  row's date; the normalised factor of the last row is 1 (for a factor \<open>g \<noteq> 0\<close>: over
  the reals \<open>g / g = 1\<close> needs it, as over floats \<open>0.0 / 0.0\<close> is NaN); and the result is
  the selected array rewritten by the rule of the specification, \<open>spec_adjust_column\<close>:
  price-class fields multiplied by the normalised factors, \<^verbatim>\<open>volume\<close> divided by them, the
  other fields as they were. The field names of the array are distinct, as those of a
  numpy dtype are.
\<close>

theorem adjust_bar_applies_normalized_factors:
  assumes "get_factors ds obid = Some ex"
    and "getitem_field b ''datetime'' = Inr dts"
    and "distinct (dtype_names b)"
    and "factor_for_date (start_date ex) (ex_cum_factor ex) (hd dts)
           \<noteq> factor_for_date (start_date ex) (ex_cum_factor ex) (last dts)"
    and "adjust_bar ds obid b flds = Inr a"
  shows "\<exists>fs g.
      length fs = length dts \<and>
      (\<forall>i<length dts. factor_for_date (start_date ex) (ex_cum_factor ex) (dts ! i) = Inr (fs ! i)) \<and>
      factor_for_date (start_date ex) (ex_cum_factor ex) (last dts) = Inr g \<and>
      (g \<noteq> 0 \<longrightarrow> last (map (\<lambda>x. x / g) fs) = 1) \<and>
      (\<forall>f. flds = Single f \<longrightarrow>
         (\<exists>c. getitem_field b f = Inr c \<and>
              a = Column (spec_adjust_column (map (\<lambda>x. x / g) fs) f c))) \<and>
      (flds = NoFields \<longrightarrow>
         a = Table (map (\<lambda>x. (fst x, spec_adjust_column (map (\<lambda>x. x / g) fs) (fst x) (snd x))) b)) \<and>
      (\<forall>ns. flds = Many ns \<longrightarrow>
         (\<exists>t. getitem_fields b ns = Inr t \<and>
              a = Table (map (\<lambda>x. (fst x, spec_adjust_column (map (\<lambda>x. x / g) fs) (fst x) (snd x))) t)))"
proof -
  from adjust_bar_slow_path [OF assms(1,2,4,5)] obtain fs g where
    fs: "map_result (factor_for_date (start_date ex) (ex_cum_factor ex)) dts = Inr fs" and
    ne: "dts \<noteq> []" "fs \<noteq> []" and g: "g = last fs" and
    a: "apply_factors (map (\<lambda>x. x / g) fs) b flds = Inr a"
    by blast
  note m = map_result_Inr [OF fs]
  have len: "length fs = length dts" using m by simp
  have each: "\<forall>i<length dts. factor_for_date (start_date ex) (ex_cum_factor ex) (dts ! i) = Inr (fs ! i)"
    using m by simp
  have "length dts - 1 < length dts" using ne(1) by (cases dts) simp_all
  with each have "factor_for_date (start_date ex) (ex_cum_factor ex) (dts ! (length dts - 1))
      = Inr (fs ! (length dts - 1))" by blast
  then have last: "factor_for_date (start_date ex) (ex_cum_factor ex) (last dts) = Inr g"
    using ne len g by (simp add: last_conv_nth)
  have one: "g \<noteq> 0 \<longrightarrow> last (map (\<lambda>x. x / g) fs) = 1"
    using ne(2) g by (simp add: last_map)
  from apply_factors_spec [OF assms(3) a] len each last one show ?thesis by blast
qed

theorem adjust_bar_applies_normalized_factors_witness:
  "adjust_bar split_source ''000001.XSHE'' stock_bars NoFields
     = Inr (Table [(''datetime'', [20200102, 20200103, 20200106, 20200107]),
                   (''close'', [5, 5, 5, 5]),
                   (''volume'', [200, 200, 200, 200]),
                   (''total_turnover'', [1000, 1000, 1000, 1000])]) \<and>
   (\<exists>fs g. length fs = 4 \<and>
      factor_for_date [0, 20200106] [1, 2] (20200107 :: real) = Inr g \<and> g = 2 \<and>
      last (map (\<lambda>x. x / g) fs) = 1 \<and>
      Table [(''datetime'', [20200102, 20200103, 20200106, 20200107]),
             (''close'', [5, 5, 5, 5]),
             (''volume'', [200, 200, 200, 200]),
             (''total_turnover'', [1000, 1000, 1000, 1000])]
        = Table (map (\<lambda>x. (fst x, spec_adjust_column (map (\<lambda>x. x / g) fs) (fst x) (snd x)))
            stock_bars))"
proof -
  let ?ex = "\<lparr>start_date = [0, 20200106 :: real], ex_cum_factor = [1, 2 :: real]\<rparr>"
  let ?dts = "[20200102, 20200103, 20200106, 20200107 :: real]"
  let ?a = "Table [(''datetime'', [20200102, 20200103, 20200106, 20200107]),
                   (''close'', [5, 5, 5, 5]),
                   (''volume'', [200, 200, 200, 200]),
                   (''total_turnover'', [1000, 1000, 1000, 1000])]"
  have h1: "get_factors split_source ''000001.XSHE'' = Some ?ex" by code_simp
  have h2: "getitem_field stock_bars ''datetime'' = Inr ?dts" by code_simp
  have h3: "distinct (dtype_names stock_bars)" by code_simp
  have h4: "factor_for_date (start_date ?ex) (ex_cum_factor ?ex) (hd ?dts)
              \<noteq> factor_for_date (start_date ?ex) (ex_cum_factor ?ex) (last ?dts)"
    by code_simp
  have h5: "adjust_bar split_source ''000001.XSHE'' stock_bars NoFields = Inr ?a" by code_simp
  have v: "factor_for_date [0, 20200106] [1, 2] (20200107 :: real) = Inr (2 :: real)"
    by code_simp
  from adjust_bar_applies_normalized_factors [OF h1 h2 h3 h4 h5] obtain fs g where
    len: "length fs = length ?dts" and
    g: "factor_for_date (start_date ?ex) (ex_cum_factor ?ex) (last ?dts) = Inr g" and
    one: "g \<noteq> 0 \<longrightarrow> last (map (\<lambda>x. x / g) fs) = 1" and
    a: "?a = Table (map (\<lambda>x. (fst x, spec_adjust_column (map (\<lambda>x. x / g) fs) (fst x) (snd x)))
            stock_bars)"
    by (elim exE conjE) simp
  have g2: "g = 2" using g v by simp
  then have one': "last (map (\<lambda>x. x / g) fs) = 1" using one by simp
  have l4: "length fs = 4" using len by simp
  have vg: "factor_for_date [0, 20200106] [1, 2] (20200107 :: real) = Inr g" using v g2 by simp
  show ?thesis
  proof (intro conjI exI)
    show "adjust_bar split_source ''000001.XSHE'' stock_bars NoFields = Inr ?a" by (rule h5)
    show "length fs = 4" by (rule l4)
    show "factor_for_date [0, 20200106] [1, 2] (20200107 :: real) = Inr g" by (rule vg)
    show "g = 2" by (rule g2)
    show "last (map (\<lambda>x. x / g) fs) = 1" by (rule one')
    show "?a = Table (map (\<lambda>x. (fst x, spec_adjust_column (map (\<lambda>x. x / g) fs) (fst x) (snd x)))
            stock_bars)" by (rule a)
  qed
qed

section \<open>The adjustment engine: what it writes\<close>

lemma map_of_setitem_field_other: "g \<noteq> f \<Longrightarrow> map_of (setitem_field f c t) g = map_of t g"
  by (induction t) auto

lemma rewrite_field_frame:
  assumes "rewrite_field nf f t = Inr t1" and "g \<notin> PRICE_FIELDS" and "g \<noteq> ''volume''"
  shows "map_of t1 g = map_of t g"
proof (cases "f \<in> PRICE_FIELDS \<or> f = ''volume''")
  case False
  then show ?thesis using assms(1) by (simp add: rewrite_field_def)
next
  case True
  then have "g \<noteq> f" using assms(2,3) by auto
  moreover from True assms(1) obtain c where "t1 = setitem_field f c t"
    by (auto simp: rewrite_field_def result_bind_eq_Inr split: if_splits)
  ultimately show ?thesis by (simp add: map_of_setitem_field_other)
qed

lemma rewrite_fields_frame:
  "rewrite_fields nf ns t = Inr t' \<Longrightarrow> g \<notin> PRICE_FIELDS \<Longrightarrow> g \<noteq> ''volume'' \<Longrightarrow>
   map_of t' g = map_of t g"
proof (induction ns arbitrary: t)
  case Nil
  then show ?case by simp
next
  case (Cons f ns)
  from Cons.prems(1) obtain t1 where t1: "rewrite_field nf f t = Inr t1"
    and t': "rewrite_fields nf ns t1 = Inr t'"
    by (auto simp: result_bind_eq_Inr)
  have "map_of t' g = map_of t1 g" by (rule Cons.IH [OF t' Cons.prems(2,3)])
  also have "\<dots> = map_of t g" by (rule rewrite_field_frame [OF t1 Cons.prems(2,3)])
  finally show ?case .
qed

lemma rewrite_fields_names: "rewrite_fields nf ns t = Inr t' \<Longrightarrow> map fst t' = map fst t"
proof (induction ns arbitrary: t)
  case Nil
  then show ?case by simp
next
  case (Cons f ns)
  from Cons.prems obtain t1 where t1: "rewrite_field nf f t = Inr t1"
    and t': "rewrite_fields nf ns t1 = Inr t'"
    by (auto simp: result_bind_eq_Inr)
  show ?case using Cons.IH [OF t'] rewrite_field_names [OF t1] by simp
qed

lemma inplace_rewrites_eq:
  "r < length s \<Longrightarrow> s ! r = Table t \<Longrightarrow>
   inplace_rewrites nf r ns s
     = result_bind (rewrite_fields nf ns t) (\<lambda>t'. Inr (s[r := Table t']))"
proof (induction ns arbitrary: s t)
  case Nil
  then have "s[r := Table t] = s" by (metis list_update_id)
  then show ?case by simp
next
  case (Cons f ns)
  show ?case
  proof (cases "rewrite_field nf f t")
    case (Inl e)
    then show ?thesis using Cons.prems by (simp add: inplace_rewrite_def)
  next
    case (Inr t1)
    have "inplace_rewrites nf r (f # ns) s = inplace_rewrites nf r ns (s[r := Table t1])"
      using Inr Cons.prems by (simp add: inplace_rewrite_def)
    also have "\<dots> = result_bind (rewrite_fields nf ns t1)
        (\<lambda>t'. Inr ((s[r := Table t1])[r := Table t']))"
      by (rule Cons.IH) (use Cons.prems in simp_all)
    finally show ?thesis using Inr by simp
  qed
qed

lemma inplace_rewrites_fresh:
  "inplace_rewrites nf (length s) ns (s @ [Table t])
     = result_bind (rewrite_fields nf ns t) (\<lambda>t'. Inr (s @ [Table t']))"
  using inplace_rewrites_eq [of "length s" "s @ [Table t]" t nf ns] by simp


lemma apply_factors_st_result:
  assumes "s ! p = Table b" and "apply_factors_st nf s p b flds = Inr (s', v)"
  shows "take (length s) s' = s \<and>
         (\<exists>a. deref s' v = Inr a \<and> apply_factors nf b flds = Inr a) \<and>
         ((s' = s \<and> v = View p flds) \<or> (length s' = Suc (length s) \<and> v = Obj (length s)))"
proof (cases flds)
  case NoFields
  then obtain t' where "rewrite_fields nf (dtype_names b) b = Inr t'" and "s' = s @ [Table t']"
    and "v = Obj (length s)"
    using assms(2) by (auto simp: alloc_def inplace_rewrites_fresh result_bind_eq_Inr)
  with NoFields show ?thesis by simp
next
  case (Single f)
  show ?thesis
  proof (cases "f \<in> PRICE_FIELDS \<or> f = ''volume''")
    case True
    then obtain r where "apply_factors nf b flds = Inr (Column r)" and "s' = s @ [Column r]"
      and "v = Obj (length s)"
      using assms(2) Single by (auto simp: alloc_def result_bind_eq_Inr split: if_splits)
    then show ?thesis by simp
  next
    case False
    then have "s' = s" and "v = View p flds" and "apply_factors nf b flds = select_fields b flds"
      and "\<exists>a. select_fields b flds = Inr a"
      using assms(2) Single by (auto simp: select_ref_def result_bind_eq_Inr)
    then show ?thesis using assms(1) by auto
  qed
next
  case (Many fs)
  then obtain t t' where "getitem_fields b fs = Inr t"
    and "rewrite_fields nf (dtype_names t) t = Inr t'" and "s' = s @ [Table t']"
    and "v = Obj (length s)"
    using assms(2) by (auto simp: alloc_def inplace_rewrites_fresh result_bind_eq_Inr)
  with Many show ?thesis by simp
qed

lemma select_ref_result:
  assumes "s ! p = Table b" and "select_ref p b flds = Inr v"
  shows "(\<exists>a. deref s v = Inr a \<and> select_fields b flds = Inr a) \<and>
         (v = Obj p \<or> v = View p flds)"
  using assms by (cases flds) (auto simp: select_ref_def result_bind_eq_Inr)

lemma adjust_bar_st_result:
  assumes "s ! p = Table b" and "adjust_bar_st ds obid s p flds = Inr (s', v)"
  shows "take (length s) s' = s \<and>
         (\<exists>a. deref s' v = Inr a \<and> adjust_bar ds obid b flds = Inr a) \<and>
         ((s' = s \<and> (v = Obj p \<or> v = View p flds)) \<or>
          (length s' = Suc (length s) \<and> v = Obj (length s)))"
proof (cases "get_factors ds obid")
  case None
  then have "s' = s" and "select_ref p b flds = Inr v"
    using assms by (auto simp: adjust_bar_st_def result_bind_eq_Inr)
  then show ?thesis
    using select_ref_result [OF assms(1)] None by (simp add: adjust_bar_def)
next
  case (Some ex)
  let ?f = "factor_for_date (start_date ex) (ex_cum_factor ex)"
  from assms Some obtain dts d0 d1 f0 f1 where
    pre: "getitem_field b ''datetime'' = Inr dts" "py_index dts 0 = Inr d0"
      "py_index dts (- 1) = Inr d1" "?f d0 = Inr f0" "?f d1 = Inr f1" and
    rest: "(if f0 = f1 then result_bind (select_ref p b flds) (\<lambda>v. Inr (s, v))
            else result_bind (map_result ?f dts) (\<lambda>factors.
                   result_bind (py_index factors (- 1)) (\<lambda>g.
                     apply_factors_st (map (\<lambda>x. x / g) factors) s p b flds))) = Inr (s', v)"
    by (auto simp: adjust_bar_st_def result_bind_eq_Inr)
  have pure: "adjust_bar ds obid b flds =
      (if f0 = f1 then select_fields b flds
       else result_bind (map_result ?f dts) (\<lambda>factors.
              result_bind (py_index factors (- 1)) (\<lambda>g.
                apply_factors (map (\<lambda>x. x / g) factors) b flds)))"
    using Some pre by (simp add: adjust_bar_def)
  show ?thesis
  proof (cases "f0 = f1")
    case True
    then have "s' = s" and "select_ref p b flds = Inr v"
      using rest by (auto simp: result_bind_eq_Inr)
    then show ?thesis using select_ref_result [OF assms(1)] pure True by simp
  next
    case False
    with rest obtain fs g where fs: "map_result ?f dts = Inr fs" "py_index fs (- 1) = Inr g"
      and st: "apply_factors_st (map (\<lambda>x. x / g) fs) s p b flds = Inr (s', v)"
      by (auto simp: result_bind_eq_Inr)
    from apply_factors_st_result [OF assms(1) st] show ?thesis
      using pure False fs by auto
  qed
qed

lemma adjust_bar_cases:
  assumes "adjust_bar ds obid b flds = Inr a"
  shows "select_fields b flds = Inr a \<or> (\<exists>nf. apply_factors nf b flds = Inr a)"
proof (cases "get_factors ds obid")
  case None
  then show ?thesis using assms by (simp add: adjust_bar_def)
next
  case (Some ex)
  then show ?thesis using assms
    by (auto simp: adjust_bar_def result_bind_eq_Inr split: if_splits)
qed

lemma apply_factors_frame:
  assumes "apply_factors nf b flds = Inr a"
  shows "(\<forall>t. a = Table t \<longrightarrow>
            (\<exists>src. select_fields b flds = Inr (Table src) \<and> dtype_names t = dtype_names src \<and>
               (\<forall>f. f \<notin> PRICE_FIELDS \<and> f \<noteq> ''volume'' \<longrightarrow> map_of t f = map_of src f))) \<and>
         (\<forall>c f. a = Column c \<and> flds = Single f \<and> f \<notin> PRICE_FIELDS \<and> f \<noteq> ''volume''
            \<longrightarrow> getitem_field b f = Inr c)"
proof (cases flds)
  case NoFields
  then obtain t' where t': "rewrite_fields nf (dtype_names b) b = Inr t'" and a: "a = Table t'"
    using assms by (auto simp: result_bind_eq_Inr)
  show ?thesis
    using NoFields a rewrite_fields_frame [OF t'] rewrite_fields_names [OF t']
    by (simp add: dtype_names_def)
next
  case (Single f)
  then show ?thesis using assms by (auto simp: result_bind_eq_Inr split: if_splits)
next
  case (Many fs)
  then obtain t t' where t: "getitem_fields b fs = Inr t"
    and t': "rewrite_fields nf (dtype_names t) t = Inr t'" and a: "a = Table t'"
    using assms by (auto simp: result_bind_eq_Inr)
  show ?thesis
    using Many a t rewrite_fields_frame [OF t'] rewrite_fields_names [OF t']
    by (simp add: dtype_names_def)
qed

lemma select_fields_frame:
  assumes "select_fields b flds = Inr a"
  shows "(\<forall>t. a = Table t \<longrightarrow>
            (\<exists>src. select_fields b flds = Inr (Table src) \<and> dtype_names t = dtype_names src \<and>
               (\<forall>f. f \<notin> PRICE_FIELDS \<and> f \<noteq> ''volume'' \<longrightarrow> map_of t f = map_of src f))) \<and>
         (\<forall>c f. a = Column c \<and> flds = Single f \<and> f \<notin> PRICE_FIELDS \<and> f \<noteq> ''volume''
            \<longrightarrow> getitem_field b f = Inr c)"
  using assms by (cases flds) (auto simp: result_bind_eq_Inr)

lemma adjust_bar_frame:
  assumes "adjust_bar ds obid b flds = Inr a"
  shows "(\<forall>t. a = Table t \<longrightarrow>
            (\<exists>src. select_fields b flds = Inr (Table src) \<and> dtype_names t = dtype_names src \<and>
               (\<forall>f. f \<notin> PRICE_FIELDS \<and> f \<noteq> ''volume'' \<longrightarrow> map_of t f = map_of src f))) \<and>
         (\<forall>c f. a = Column c \<and> flds = Single f \<and> f \<notin> PRICE_FIELDS \<and> f \<noteq> ''volume''
            \<longrightarrow> getitem_field b f = Inr c)"
  using adjust_bar_cases [OF assms] apply_factors_frame [of _ b flds a]
    select_fields_frame [of b flds a]
  by blast

text \<open>
  C8. \<^verbatim>\<open>_adjust_bar\<close> is called with the array object at address \<open>p\<close> of the store as
  \<^verbatim>\<open>bars\<close> and returns. Then every array that was in the store before the call is
  unchanged, the source slice at \<open>p\<close> among them. What is returned is either the source
  itself or a view of it, with the store as it was, or a fresh object at a new address:
  the field rewrite \<^verbatim>\<open>result[f] *= factors\<close> only ever writes into that fresh copy. The
  returned array is the one \<open>adjust_bar\<close> computes, and in it every field that is neither
  price-class nor \<^verbatim>\<open>volume\<close> has the column it has in the source slice (projected to the
  selector). The call over the store returns whenever \<open>adjust_bar\<close> does
  (\<open>adjust_bar_st_returns\<close>).
\<close>

theorem adjust_bar_st_never_mutates_source:
  assumes "p < length s" and "s ! p = Table b"
    and "adjust_bar_st ds obid s p flds = Inr (s', v)"
  shows "take (length s) s' = s \<and> s' ! p = Table b \<and>
         ((s' = s \<and> (v = Obj p \<or> v = View p flds)) \<or>
          (length s' = Suc (length s) \<and> v = Obj (length s))) \<and>
         (\<exists>a. deref s' v = Inr a \<and> adjust_bar ds obid b flds = Inr a \<and>
            (\<forall>t. a = Table t \<longrightarrow>
               (\<exists>src. select_fields b flds = Inr (Table src) \<and>
                  dtype_names t = dtype_names src \<and>
                  (\<forall>f. f \<notin> PRICE_FIELDS \<and> f \<noteq> ''volume'' \<longrightarrow> map_of t f = map_of src f))) \<and>
            (\<forall>c f. a = Column c \<and> flds = Single f \<and> f \<notin> PRICE_FIELDS \<and> f \<noteq> ''volume''
               \<longrightarrow> getitem_field b f = Inr c))"
proof -
  note r = adjust_bar_st_result [OF assms(2,3)]
  have tk: "take (length s) s' = s" using r by simp
  have "s' ! p = take (length s) s' ! p" using assms(1) by simp
  then have sp: "s' ! p = Table b" using tk assms(2) by simp
  from r obtain a where a: "deref s' v = Inr a" "adjust_bar ds obid b flds = Inr a" by blast
  from adjust_bar_frame [OF a(2)] a tk sp r show ?thesis by blast
qed

lemma apply_factors_st_returns:
  assumes "apply_factors nf b flds = Inr a"
  shows "\<exists>s' v. apply_factors_st nf s p b flds = Inr (s', v)"
  using assms
  by (cases flds)
    (auto simp: result_bind_eq_Inr alloc_def inplace_rewrites_fresh select_ref_def
      split: if_splits)

lemma adjust_bar_st_returns:
  assumes "s ! p = Table b" and "adjust_bar ds obid b flds = Inr a"
  shows "\<exists>s' v. adjust_bar_st ds obid s p flds = Inr (s', v)"
proof (cases "get_factors ds obid")
  case None
  then show ?thesis using assms
    by (auto simp: adjust_bar_def adjust_bar_st_def select_ref_def)
next
  case (Some ex)
  let ?f = "factor_for_date (start_date ex) (ex_cum_factor ex)"
  from assms(2) Some obtain dts d0 d1 f0 f1 where
    pre: "getitem_field b ''datetime'' = Inr dts" "py_index dts 0 = Inr d0"
      "py_index dts (- 1) = Inr d1" "?f d0 = Inr f0" "?f d1 = Inr f1" and
    rest: "(if f0 = f1 then select_fields b flds
            else result_bind (map_result ?f dts) (\<lambda>factors.
                   result_bind (py_index factors (- 1)) (\<lambda>g.
                     apply_factors (map (\<lambda>x. x / g) factors) b flds))) = Inr a"
    by (auto simp: adjust_bar_def result_bind_eq_Inr)
  have st: "adjust_bar_st ds obid s p flds =
      (if f0 = f1 then result_bind (select_ref p b flds) (\<lambda>v. Inr (s, v))
       else result_bind (map_result ?f dts) (\<lambda>factors.
              result_bind (py_index factors (- 1)) (\<lambda>g.
                apply_factors_st (map (\<lambda>x. x / g) factors) s p b flds)))"
    using Some pre assms(1) by (simp add: adjust_bar_st_def)
  show ?thesis
  proof (cases "f0 = f1")
    case True
    then have "select_fields b flds = Inr a" using rest by simp
    then show ?thesis using st True by (simp add: select_ref_def)
  next
    case False
    with rest obtain fs g where fs: "map_result ?f dts = Inr fs" "py_index fs (- 1) = Inr g"
      and a: "apply_factors (map (\<lambda>x. x / g) fs) b flds = Inr a"
      by (auto simp: result_bind_eq_Inr)
    from apply_factors_st_returns [OF a, of s p] show ?thesis
      using st False fs by auto
  qed
qed

theorem adjust_bar_st_never_mutates_source_witness:
  "adjust_bar_st split_source ''000001.XSHE'' [Table stock_bars] 0 NoFields
     = Inr ([Table stock_bars,
             Table [(''datetime'', [20200102, 20200103, 20200106, 20200107]),
                    (''close'', [5, 5, 5, 5]),
                    (''volume'', [200, 200, 200, 200]),
                    (''total_turnover'', [1000, 1000, 1000, 1000])]], Obj 1) \<and>
   take (length [Table stock_bars])
     [Table stock_bars,
      Table [(''datetime'', [20200102, 20200103, 20200106, 20200107]),
             (''close'', [5, 5, 5, 5]),
             (''volume'', [200, 200, 200, 200]),
             (''total_turnover'', [1000, 1000, 1000, 1000])]] = [Table stock_bars] \<and>
   [Table stock_bars,
      Table [(''datetime'', [20200102, 20200103, 20200106, 20200107]),
             (''close'', [5, 5, 5, 5]),
             (''volume'', [200, 200, 200, 200]),
             (''total_turnover'', [1000, 1000, 1000, 1000])]] ! 0 = Table stock_bars"
proof -
  let ?s' = "[Table stock_bars,
      Table [(''datetime'', [20200102, 20200103, 20200106, 20200107]),
             (''close'', [5, 5, 5, 5]),
             (''volume'', [200, 200, 200, 200]),
             (''total_turnover'', [1000, 1000, 1000, 1000])]]"
  have h1: "0 < length [Table stock_bars]" by simp
  have h2: "[Table stock_bars] ! 0 = Table stock_bars" by simp
  have h3: "adjust_bar_st split_source ''000001.XSHE'' [Table stock_bars] 0 NoFields
     = Inr (?s', Obj 1)" by code_simp
  note t = adjust_bar_st_never_mutates_source [OF h1 h2 h3]
  show ?thesis
  proof (intro conjI)
    show "adjust_bar_st split_source ''000001.XSHE'' [Table stock_bars] 0 NoFields
       = Inr (?s', Obj 1)" by (rule h3)
    show "take (length [Table stock_bars]) ?s' = [Table stock_bars]" by (rule t [THEN conjunct1])
    show "?s' ! 0 = Table stock_bars" by (rule t [THEN conjunct2, THEN conjunct1])
  qed
qed

section \<open>Window lookup: the rows of the window\<close>

















lemma window_bounds:
  assumes "0 \<le> n"
  shows "(if n \<le> int k then nat (int k - n) else 0) = k - min (nat n) k"
  using assms by auto




section \<open>Window lookup: the raw window for no selector or a list of names\<close>

text \<open>
  What holds of the fast paths at the level of \<^verbatim>\<open>history_bars\<close>: for no selector or a list
  of names, an instrument without a factor table, or with the same factor at the first and
  the last date of a non-empty window, gets the window back raw, projected to the
  selector. Only these two dates are compared; the factors in between play no part.
\<close>

lemma history_bars_window:
  assumes "selected_bars ds inst skip = Inr (Some b)"
    and "getitem_field b ''datetime'' = Inr dts" and "sorted dts" and "0 \<le> n"
    and "are_fields_valid flds (dtype_names b)"
  shows "history_bars ds inst n ''1d'' flds dt skip =
           result_bind
             (return_window ds inst flds
                (getitem_slice b (rows_up_to dts dt - min (nat n) (rows_up_to dts dt))
                   (rows_up_to dts dt)))
             (\<lambda>a. Inr (Some a))"
proof -
  have i: "searchsorted dts dt Right = rows_up_to dts dt"
    using searchsorted_right [OF assms(3)] by (simp add: rows_up_to_def)
  note left = window_bounds [OF assms(4), of "rows_up_to dts dt"]
  show ?thesis
    using assms(1,2,5)
    by (simp add: history_bars_def i left split del: if_split cong: if_cong)
qed

lemma return_window_raw:
  assumes "flds = NoFields \<or> flds = Many fs"
    and "adjust_bar ds (order_book_id inst) w flds = select_fields w flds"
  shows "return_window ds inst flds w = select_fields w flds"
  using assms by (auto simp: return_window_def)

lemma history_bars_raw_window:
  assumes "selected_bars ds inst skip = Inr (Some b)"
    and "getitem_field b ''datetime'' = Inr dts" and "sorted dts" and "0 \<le> n"
    and "are_fields_valid flds (dtype_names b)"
    and "flds = NoFields \<or> flds = Many fs"
    and "w = getitem_slice b (rows_up_to dts dt - min (nat n) (rows_up_to dts dt))
               (rows_up_to dts dt)"
    and "get_factors ds (order_book_id inst) = None \<or>
         (\<exists>ex wd g. get_factors ds (order_book_id inst) = Some ex \<and>
            getitem_field w ''datetime'' = Inr wd \<and> wd \<noteq> [] \<and>
            factor_for_date (start_date ex) (ex_cum_factor ex) (hd wd) = Inr g \<and>
            factor_for_date (start_date ex) (ex_cum_factor ex) (last wd) = Inr g)"
  shows "history_bars ds inst n ''1d'' flds dt skip
           = result_bind (select_fields w flds) (\<lambda>a. Inr (Some a))"
proof -
  have "adjust_bar ds (order_book_id inst) w flds = select_fields w flds"
    using assms(8) adjust_bar_no_factors adjust_bar_equal_endpoints by blast
  then have "return_window ds inst flds w = select_fields w flds"
    by (rule return_window_raw [OF assms(6)])
  then show ?thesis
    using history_bars_window [OF assms(1,2,3,4,5), of dt] assms(7) by simp
qed

end
